theory Spec2Isabelle
  imports Main "HOL-Library.Char_ord" "HOL-Library.List_Lexorder"
begin

section \<open>Strings\<close>

text \<open>
  A Python \<^verbatim>\<open>str\<close> is modelled as a \<^typ>\<open>string\<close>, one \<^typ>\<open>char\<close> per code point.
  The character tables below are those of Python on the ASCII range (code points below
  128); a character above that range is taken to be neither a letter, a digit nor white
  space. The order on strings is the lexicographic order on code points, as Python's
  \<^verbatim>\<open><\<close> on \<^verbatim>\<open>str\<close>.
\<close>

definition NL :: char where
  "NL = CHR 0x0A"

definition is_space :: "char \<Rightarrow> bool" where
  "is_space c = (c \<in> set [CHR 0x09, CHR 0x0A, CHR 0x0B, CHR 0x0C, CHR 0x0D,
                            CHR 0x1C, CHR 0x1D, CHR 0x1E, CHR 0x1F, CHR 0x20])"

definition is_upper :: "char \<Rightarrow> bool" where
  "is_upper c = (CHR ''A'' \<le> c \<and> c \<le> CHR ''Z'')"

definition is_lower :: "char \<Rightarrow> bool" where
  "is_lower c = (CHR ''a'' \<le> c \<and> c \<le> CHR ''z'')"

definition is_digit :: "char \<Rightarrow> bool" where
  "is_digit c = (CHR ''0'' \<le> c \<and> c \<le> CHR ''9'')"

definition is_word :: "char \<Rightarrow> bool" where
  "is_word c = (is_upper c \<or> is_lower c \<or> is_digit c \<or> c = CHR ''_'')"

definition lower_char :: "char \<Rightarrow> char" where
  "lower_char c = (if is_upper c then char_of (of_char c + (32 :: nat)) else c)"

definition upper_char :: "char \<Rightarrow> char" where
  "upper_char c = (if is_lower c then char_of (of_char c - (32 :: nat)) else c)"

definition lower :: "string \<Rightarrow> string" where
  "lower s = map lower_char s"

definition upper :: "string \<Rightarrow> string" where
  "upper s = map upper_char s"

definition lstrip :: "string \<Rightarrow> string" where
  "lstrip s = dropWhile is_space s"

definition rstrip :: "string \<Rightarrow> string" where
  "rstrip s = rev (dropWhile is_space (rev s))"

definition strip :: "string \<Rightarrow> string" where
  "strip s = rstrip (lstrip s)"

text \<open>\<^verbatim>\<open>s.split()\<close>: the maximal runs of characters that are not white space.\<close>

fun split_ws :: "string \<Rightarrow> string \<Rightarrow> string list" where
  "split_ws w [] = (if w = [] then [] else [rev w])"
| "split_ws w (c # cs) =
     (if is_space c then (if w = [] then split_ws [] cs else rev w # split_ws [] cs)
      else split_ws (c # w) cs)"

definition split :: "string \<Rightarrow> string list" where
  "split s = split_ws [] s"

text \<open>\<^verbatim>\<open>s.split('\n')\<close> and \<^verbatim>\<open>'\n'.join(xs)\<close>.\<close>

fun split_on :: "char \<Rightarrow> string \<Rightarrow> string \<Rightarrow> string list" where
  "split_on d w [] = [rev w]"
| "split_on d w (c # cs) = (if c = d then rev w # split_on d [] cs else split_on d (c # w) cs)"

fun join :: "string \<Rightarrow> string list \<Rightarrow> string" where
  "join d [] = []"
| "join d [x] = x"
| "join d (x # y # ys) = x @ d @ join d (y # ys)"

definition endswith :: "string \<Rightarrow> string \<Rightarrow> bool" where
  "endswith s suf = (length suf \<le> length s \<and> drop (length s - length suf) s = suf)"

text \<open>The slice \<^verbatim>\<open>xs[-n:]\<close> for a positive \<^verbatim>\<open>n\<close>: the last \<open>n\<close> elements, all of them when
  there are fewer.\<close>

definition last_n :: "nat \<Rightarrow> 'a list \<Rightarrow> 'a list" where
  "last_n n xs = drop (length xs - n) xs"

section \<open>Calendar dates\<close>

text \<open>
  \<^verbatim>\<open>datetime.date\<close> of the standard library: a year from 1 to 9999, a month and a day of
  the proleptic Gregorian calendar. Dates are ordered as the triples (year, month, day).
  The constructor raises \<^verbatim>\<open>ValueError\<close> on a triple that is no date, and adding days
  raises \<^verbatim>\<open>OverflowError\<close> when the result leaves the range.
\<close>

datatype py_error = KeyError | ValueError | OverflowError

record date =
  year :: nat
  month :: nat
  day :: nat

definition is_leap :: "nat \<Rightarrow> bool" where
  "is_leap y = (y mod 4 = 0 \<and> (y mod 100 \<noteq> 0 \<or> y mod 400 = 0))"

definition days_in_month :: "nat \<Rightarrow> nat \<Rightarrow> nat" where
  "days_in_month y m =
     (if m = 2 then (if is_leap y then 29 else 28)
      else if m = 4 \<or> m = 6 \<or> m = 9 \<or> m = 11 then 30 else 31)"

definition valid_date :: "date \<Rightarrow> bool" where
  "valid_date d = (1 \<le> year d \<and> year d \<le> 9999 \<and> 1 \<le> month d \<and> month d \<le> 12 \<and>
     1 \<le> day d \<and> day d \<le> days_in_month (year d) (month d))"

definition mk_date :: "nat \<Rightarrow> nat \<Rightarrow> nat \<Rightarrow> py_error + date" where
  "mk_date y m d =
     (let r = \<lparr>year = y, month = m, day = d\<rparr> in if valid_date r then Inr r else Inl ValueError)"

definition date_less :: "date \<Rightarrow> date \<Rightarrow> bool" where
  "date_less a b = (year a < year b \<or> (year a = year b \<and>
     (month a < month b \<or> (month a = month b \<and> day a < day b))))"

text \<open>
  The ordinal of a date (day 1 is 0001-01-01) and its inverse, as \<^verbatim>\<open>_ymd2ord\<close> and
  \<^verbatim>\<open>_ord2ymd\<close> of the standard library compute them.
\<close>

definition days_before_year :: "nat \<Rightarrow> nat" where
  "days_before_year y = (let y = y - 1 in y * 365 + y div 4 - y div 100 + y div 400)"

definition DAYS_IN_MONTH :: "nat list" where
  "DAYS_IN_MONTH = [0, 31, 28, 31, 30, 31, 30, 31, 31, 30, 31, 30, 31]"

definition DAYS_BEFORE_MONTH :: "nat list" where
  "DAYS_BEFORE_MONTH = [0, 0, 31, 59, 90, 120, 151, 181, 212, 243, 273, 304, 334]"

definition days_before_month :: "nat \<Rightarrow> nat \<Rightarrow> nat" where
  "days_before_month y m = DAYS_BEFORE_MONTH ! m + (if 2 < m \<and> is_leap y then 1 else 0)"

definition toordinal :: "date \<Rightarrow> nat" where
  "toordinal d = days_before_year (year d) + days_before_month (year d) (month d) + day d"

definition fromordinal :: "nat \<Rightarrow> date" where
  "fromordinal ordinal =
     (let n = ordinal - 1;
          n400 = n div 146097; n = n mod 146097;
          n100 = n div 36524; n = n mod 36524;
          n4 = n div 1461; n = n mod 1461;
          n1 = n div 365; n = n mod 365;
          y = n400 * 400 + 1 + n100 * 100 + n4 * 4 + n1
      in if n1 = 4 \<or> n100 = 4 then \<lparr>year = y - 1, month = 12, day = 31\<rparr>
         else
           let leapyear = (n1 = 3 \<and> (n4 \<noteq> 24 \<or> n100 = 3));
               m = (n + 50) div 32;
               preceding = DAYS_BEFORE_MONTH ! m + (if 2 < m \<and> leapyear then 1 else 0)
           in if n < preceding
              then (let m' = m - 1;
                        preceding' = preceding - (DAYS_IN_MONTH ! m' + (if m' = 2 \<and> leapyear then 1 else 0))
                    in \<lparr>year = y, month = m', day = n - preceding' + 1\<rparr>)
              else \<lparr>year = y, month = m, day = n - preceding + 1\<rparr>)"

definition MAXORDINAL :: nat where
  "MAXORDINAL = 3652059"

text \<open>\<^verbatim>\<open>d.weekday()\<close>: Monday is 0.\<close>

definition weekday :: "date \<Rightarrow> nat" where
  "weekday d = (toordinal d + 6) mod 7"

text \<open>\<^verbatim>\<open>d + datetime.timedelta(days=k)\<close>.\<close>

definition date_add :: "date \<Rightarrow> int \<Rightarrow> py_error + date" where
  "date_add d k =
     (let ordinal = int (toordinal d) + k
      in if 0 < ordinal \<and> ordinal \<le> int MAXORDINAL then Inr (fromordinal (nat ordinal))
         else Inl OverflowError)"

definition digit_char :: "nat \<Rightarrow> char" where
  "digit_char n = ''0123456789'' ! n"

fun dec :: "nat \<Rightarrow> string" where
  "dec n = (if n < 10 then [digit_char n] else dec (n div 10) @ [digit_char (n mod 10)])"

declare dec.simps [simp del]

definition zfill :: "nat \<Rightarrow> string \<Rightarrow> string" where
  "zfill w s = replicate (w - length s) CHR ''0'' @ s"

text \<open>\<^verbatim>\<open>d.isoformat()\<close>, that is \<^verbatim>\<open>"%04d-%02d-%02d" % (year, month, day)\<close>.\<close>

definition isoformat :: "date \<Rightarrow> string" where
  "isoformat d = zfill 4 (dec (year d)) @ ''-'' @ zfill 2 (dec (month d)) @ ''-'' @ zfill 2 (dec (day d))"

section \<open>The task store and the auto-task merger\<close>

text \<open>
  A task is the JSON object \<^verbatim>\<open>add_auto_task\<close> builds; the store is the object
  \<^verbatim>\<open>load_tasks\<close> returns, a dictionary from bucket names to task lists. A candidate item
  is the dictionary \<^verbatim>\<open>extract_action_items\<close> produces; a key that is missing or holds
  \<^verbatim>\<open>None\<close> is \<open>None\<close>.
\<close>

record task =
  task_id :: string
  task_text :: string
  task_priority :: string
  task_due :: "string option"
  task_done :: bool
  task_created :: nat
  task_auto :: bool
  task_source :: string
  task_sourceDetail :: string

type_synonym store = "string \<rightharpoonup> task list"

record item =
  item_text :: "string option"
  item_due_date :: "string option"
  item_priority :: "string option"

text \<open>\<^verbatim>\<open>tasks.get(col, [])\<close>.\<close>

definition bucket :: "store \<Rightarrow> string \<Rightarrow> task list" where
  "bucket tasks col = (case tasks col of None \<Rightarrow> [] | Some ts \<Rightarrow> ts)"

text \<open>
  What one call of \<^verbatim>\<open>add_auto_task\<close> does to the store: it returns before loading it
  (empty text), returns after loading it without saving (duplicate), or appends the new
  task to a bucket and calls \<^verbatim>\<open>save_tasks\<close> with the result.
\<close>

datatype outcome = Rejected_empty | Duplicate_skipped | Saved string store

text \<open>
  \<^verbatim>\<open>add_auto_task(item, source, source_detail)\<close>. The values the function reads from its
  environment are arguments here: \<open>today\<close> is \<^verbatim>\<open>datetime.date.today()\<close>, \<open>new_id\<close> is the
  result of \<^verbatim>\<open>uid()\<close>, \<open>now_ms\<close> the creation time stamp, and \<open>tasks\<close> is the store
  \<^verbatim>\<open>load_tasks()\<close> returns. \<^verbatim>\<open>tasks[col]\<close> raises \<^verbatim>\<open>KeyError\<close> when the store has no
  such bucket. The log lines are not modelled.
\<close>

text \<open>\<^verbatim>\<open>item.get('text') or ''\<close>: a missing text is the empty string.\<close>

definition text_of :: "item \<Rightarrow> string" where
  "text_of it = (case item_text it of None \<Rightarrow> [] | Some s \<Rightarrow> s)"

definition all_texts :: "store \<Rightarrow> string set" where
  "all_texts tasks = set (map (\<lambda>t. lower (task_text t)) (bucket tasks ''today'' @ bucket tasks ''longterm''))"

definition add_auto_task ::
  "date \<Rightarrow> string \<Rightarrow> nat \<Rightarrow> store \<Rightarrow> item \<Rightarrow> string \<Rightarrow> string \<Rightarrow> py_error + outcome" where
  "add_auto_task today new_id now_ms tasks it source source_detail =
     (let text = strip (text_of it) in
      if text = [] then Inr Rejected_empty
      else
        let due_date = (case item_due_date it of None \<Rightarrow> None | Some s \<Rightarrow> if s = [] then None else Some s);
            priority = (case item_priority it of None \<Rightarrow> ''medium''
                        | Some p \<Rightarrow> if p \<in> {''high'', ''medium'', ''low''} then p else ''medium'');
            today_str = isoformat today;
            col = (case due_date of None \<Rightarrow> ''today''
                   | Some s \<Rightarrow> if s > today_str then ''longterm'' else ''today'')
        in if lower text \<in> all_texts tasks then Inr Duplicate_skipped
           else
             let t = \<lparr>task_id = new_id, task_text = text, task_priority = priority,
                      task_due = due_date, task_done = False, task_created = now_ms,
                      task_auto = True, task_source = source, task_sourceDetail = source_detail\<rparr>
             in (case tasks col of
                   None \<Rightarrow> Inl KeyError
                 | Some ts \<Rightarrow> Inr (Saved col (tasks(col \<mapsto> ts @ [t])))))"

text \<open>The content of the store after the call: what was saved, or what was there.\<close>

definition store_after :: "store \<Rightarrow> py_error + outcome \<Rightarrow> store" where
  "store_after tasks r = (case r of Inr (Saved col tasks') \<Rightarrow> tasks' | _ \<Rightarrow> tasks)"

text \<open>
  The file of the store over one call. \<^verbatim>\<open>load_tasks\<close> and \<^verbatim>\<open>save_tasks\<close> take the lock
  one after the other, not around both, and \<^verbatim>\<open>run_scan\<close> runs the three scanners, which
  all call \<^verbatim>\<open>add_auto_task\<close>, in threads of their own; the request handler saves the store
  too. So the file can be replaced between the load and the save of a call: \<open>at_load\<close> is
  what the call loads and \<open>before_save\<close> what the file holds when the call comes to save.
  A save replaces the whole file.
\<close>

definition store_file_after ::
  "date \<Rightarrow> string \<Rightarrow> nat \<Rightarrow> store \<Rightarrow> store \<Rightarrow> item \<Rightarrow> string \<Rightarrow> string \<Rightarrow> store" where
  "store_file_after today new_id now_ms at_load before_save it source source_detail =
     store_after before_save (add_auto_task today new_id now_ms at_load it source source_detail)"

section \<open>Regular expressions\<close>

text \<open>
  The patterns of the source are values of a datatype, and matching is a function that
  follows the backtracking search of Python's \<^verbatim>\<open>re\<close> module: from a position it returns
  every way the pattern can match, in the order in which \<^verbatim>\<open>re\<close> tries them, so the head of
  the list is the match \<^verbatim>\<open>re\<close> reports. A position is the character before it (for
  \<^verbatim>\<open>^\<close>, \<^verbatim>\<open>\b\<close> and a look-behind of one character), the text after it, and the groups
  captured so far. All repetitions of the source are greedy.
\<close>

datatype citem = Chr char | Range char char | Digit | Word | Space

datatype regex =
    Str string
  | Cls bool "citem list"
  | Dot
  | Bol
  | Eol
  | Wordb
  | Behind bool "citem list"
  | Seq regex regex
  | Alt regex regex
  | Rep nat "nat option" regex
  | Grp nat regex

datatype flags = Flags (ignorecase: bool) (multiline: bool)

datatype mstate = MState (prev: "char option") (rest: string) (groups: "(nat \<times> string) list")

datatype rmatch = Match (m_start: nat) (m_text: string) (m_rest: string) (m_groups: "(nat \<times> string) list")

fun seqs :: "regex list \<Rightarrow> regex" where
  "seqs [] = Str []"
| "seqs [r] = r"
| "seqs (r # rs) = Seq r (seqs rs)"

fun alts :: "regex list \<Rightarrow> regex" where
  "alts [] = Cls False []"
| "alts [r] = r"
| "alts (r # rs) = Alt r (alts rs)"

definition chr_eq :: "bool \<Rightarrow> char \<Rightarrow> char \<Rightarrow> bool" where
  "chr_eq ic x c = (if ic then lower_char c = lower_char x else c = x)"

fun citem_match :: "bool \<Rightarrow> citem \<Rightarrow> char \<Rightarrow> bool" where
  "citem_match ic (Chr x) c = chr_eq ic x c"
| "citem_match ic (Range a b) c =
     ((a \<le> c \<and> c \<le> b) \<or>
      (ic \<and> ((a \<le> lower_char c \<and> lower_char c \<le> b) \<or> (a \<le> upper_char c \<and> upper_char c \<le> b))))"
| "citem_match ic Digit c = is_digit c"
| "citem_match ic Word c = is_word c"
| "citem_match ic Space c = is_space c"

definition cls_match :: "bool \<Rightarrow> bool \<Rightarrow> citem list \<Rightarrow> char \<Rightarrow> bool" where
  "cls_match ic neg items c = (neg \<noteq> (\<exists>it \<in> set items. citem_match ic it c))"

fun str_match :: "bool \<Rightarrow> string \<Rightarrow> string \<Rightarrow> char option \<Rightarrow> (char option \<times> string) option" where
  "str_match ic [] s p = Some (p, s)"
| "str_match ic (x # xs) [] p = None"
| "str_match ic (x # xs) (c # cs) p = (if chr_eq ic x c then str_match ic xs cs (Some c) else None)"

definition is_word_opt :: "char option \<Rightarrow> bool" where
  "is_word_opt p = (case p of None \<Rightarrow> False | Some c \<Rightarrow> is_word c)"

definition next_char :: "string \<Rightarrow> char option" where
  "next_char s = (case s of [] \<Rightarrow> None | c # cs \<Rightarrow> Some c)"

text \<open>
  A repetition with bounds \<open>mn\<close> and \<open>mx\<close>: one more round of the body first, then, when
  enough rounds are done, stopping here. A round that consumes nothing (it leaves the same
  text) is not repeated; the first argument bounds the number of rounds by the length of
  the text that is left.
\<close>

fun rep :: "string \<Rightarrow> nat \<Rightarrow> nat option \<Rightarrow> (mstate \<Rightarrow> mstate list) \<Rightarrow> mstate \<Rightarrow> mstate list" where
  "rep [] mn mx f st = (if mn = 0 then [st] else [])"
| "rep (c # fuel) mn mx f st =
     (if mx = Some 0 then []
      else concat (map (\<lambda>st'. if rest st' \<noteq> rest st
                                then rep fuel (mn - 1) (map_option (\<lambda>m. m - 1) mx) f st' else [])
                       (f st)))
     @ (if mn = 0 then [st] else [])"

primrec rx :: "flags \<Rightarrow> regex \<Rightarrow> mstate \<Rightarrow> mstate list" where
  "rx fl (Str w) st =
     (case str_match (ignorecase fl) w (rest st) (prev st) of
        None \<Rightarrow> [] | Some (p, s) \<Rightarrow> [MState p s (groups st)])"
| "rx fl (Cls neg items) st =
     (case rest st of [] \<Rightarrow> []
      | c # cs \<Rightarrow> if cls_match (ignorecase fl) neg items c then [MState (Some c) cs (groups st)] else [])"
| "rx fl Dot st =
     (case rest st of [] \<Rightarrow> []
      | c # cs \<Rightarrow> if c \<noteq> NL then [MState (Some c) cs (groups st)] else [])"
| "rx fl Bol st =
     (if prev st = None \<or> (multiline fl \<and> prev st = Some NL) then [st] else [])"
| "rx fl Eol st =
     (if rest st = [] \<or> (multiline fl \<and> next_char (rest st) = Some NL)
                     \<or> (\<not> multiline fl \<and> rest st = [NL]) then [st] else [])"
| "rx fl Wordb st =
     (if is_word_opt (prev st) \<noteq> is_word_opt (next_char (rest st)) then [st] else [])"
| "rx fl (Behind neg items) st =
     (case prev st of None \<Rightarrow> []
      | Some c \<Rightarrow> if cls_match (ignorecase fl) neg items c then [st] else [])"
| "rx fl (Seq a b) st = concat (map (rx fl b) (rx fl a st))"
| "rx fl (Alt a b) st = rx fl a st @ rx fl b st"
| "rx fl (Rep mn mx r) st = rep (rest st) mn mx (rx fl r) st"
| "rx fl (Grp k r) st =
     map (\<lambda>st'. MState (prev st') (rest st')
                  ((k, take (length (rest st) - length (rest st')) (rest st)) # groups st'))
         (rx fl r st)"

text \<open>The match object for the first way the pattern matches the text \<open>s\<close> at offset \<open>i\<close>.\<close>

definition first_match :: "flags \<Rightarrow> regex \<Rightarrow> char option \<Rightarrow> string \<Rightarrow> nat \<Rightarrow> rmatch option" where
  "first_match fl r p s i =
     (case rx fl r (MState p s []) of
        [] \<Rightarrow> None
      | st # _ \<Rightarrow> Some (Match i (take (length s - length (rest st)) s) (rest st) (groups st)))"

text \<open>\<^verbatim>\<open>re.match\<close>: the pattern at the start of the text.\<close>

definition re_match :: "flags \<Rightarrow> regex \<Rightarrow> string \<Rightarrow> rmatch option" where
  "re_match fl r s = first_match fl r None s 0"

text \<open>\<^verbatim>\<open>re.search\<close>: the pattern at the leftmost offset where it matches.\<close>

fun search_from :: "flags \<Rightarrow> regex \<Rightarrow> char option \<Rightarrow> string \<Rightarrow> nat \<Rightarrow> rmatch option" where
  "search_from fl r p [] i = first_match fl r p [] i"
| "search_from fl r p (c # cs) i =
     (case first_match fl r p (c # cs) i of
        Some m \<Rightarrow> Some m
      | None \<Rightarrow> search_from fl r (Some c) cs (Suc i))"

definition re_search :: "flags \<Rightarrow> regex \<Rightarrow> string \<Rightarrow> rmatch option" where
  "re_search fl r s = search_from fl r None s 0"

definition matches :: "flags \<Rightarrow> regex \<Rightarrow> string \<Rightarrow> bool" where
  "matches fl r s = (re_match fl r s \<noteq> None)"

definition found :: "flags \<Rightarrow> regex \<Rightarrow> string \<Rightarrow> bool" where
  "found fl r s = (re_search fl r s \<noteq> None)"

text \<open>\<^verbatim>\<open>m.group(k)\<close>: the text of group \<open>k\<close>, or \<open>None\<close> when the group took no part.\<close>

definition group :: "rmatch \<Rightarrow> nat \<Rightarrow> string option" where
  "group m k = map_of (m_groups m) k"

text \<open>
  The scan behind \<^verbatim>\<open>re.sub\<close>, \<^verbatim>\<open>re.split\<close> and \<^verbatim>\<open>re.findall\<close>: the matches from left to
  right without overlap, each with the text between it and the match before, and the text
  after the last match. \<open>skip\<close> counts the characters of the current match still to pass,
  \<open>gap\<close> holds the text since the last match, reversed. The patterns scanned in the source
  match no empty text; an empty match is passed over.
\<close>

fun re_scan :: "flags \<Rightarrow> regex \<Rightarrow> char option \<Rightarrow> string \<Rightarrow> nat \<Rightarrow> string
                \<Rightarrow> (string \<times> string) list \<times> string" where
  "re_scan fl r p [] skip gap = ([], rev gap)"
| "re_scan fl r p (c # cs) skip gap =
     (if 0 < skip then re_scan fl r (Some c) cs (skip - 1) gap
      else (case first_match fl r p (c # cs) 0 of
              None \<Rightarrow> re_scan fl r (Some c) cs 0 (c # gap)
            | Some m \<Rightarrow>
                if m_text m = [] then re_scan fl r (Some c) cs 0 (c # gap)
                else (let (ps, tail) = re_scan fl r (Some c) cs (length (m_text m) - 1) []
                      in ((rev gap, m_text m) # ps, tail))))"

definition re_sub :: "flags \<Rightarrow> regex \<Rightarrow> string \<Rightarrow> string \<Rightarrow> string" where
  "re_sub fl r repl s =
     (let (ps, tail) = re_scan fl r None s 0 [] in concat (map (\<lambda>(g, m). g @ repl) ps) @ tail)"

definition re_split :: "flags \<Rightarrow> regex \<Rightarrow> string \<Rightarrow> string list" where
  "re_split fl r s = (let (ps, tail) = re_scan fl r None s 0 [] in map fst ps @ [tail])"

definition re_findall :: "flags \<Rightarrow> regex \<Rightarrow> string \<Rightarrow> string list" where
  "re_findall fl r s = (let (ps, tail) = re_scan fl r None s 0 [] in map snd ps)"

section \<open>The patterns of the source\<close>

text \<open>
  Each pattern is given as the source writes it (a pattern that the source splits over
  several string literals is shown joined, and broken over lines here) and then as a value
  of \<^typ>\<open>regex\<close>. A class member above code point 255 is left out of the class, since no
  character of the model equals it.
\<close>

abbreviation Ws :: regex where
  "Ws \<equiv> Cls False [Space]"

abbreviation NonWs :: regex where
  "NonWs \<equiv> Cls True [Space]"

abbreviation Wch :: regex where
  "Wch \<equiv> Cls False [Word]"

abbreviation Dgt :: regex where
  "Dgt \<equiv> Cls False [Digit]"

abbreviation Opt :: "regex \<Rightarrow> regex" where
  "Opt r \<equiv> Rep 0 (Some 1) r"

abbreviation Star :: "regex \<Rightarrow> regex" where
  "Star r \<equiv> Rep 0 None r"

abbreviation Plus :: "regex \<Rightarrow> regex" where
  "Plus r \<equiv> Rep 1 None r"

definition plain :: flags where
  "plain = Flags False False"

definition icase :: flags where
  "icase = Flags True False"

definition icase_multiline :: flags where
  "icase_multiline = Flags True True"

text \<open>
  \<^verbatim>\<open>\b(?:can you|could you|please|would you mind|i need you to|\<close>
  \<^verbatim>\<open>you(?:\s+will)?\s+need to|you\s+should|you\s+must|action\s+item|action:|todo:|\<close>
  \<^verbatim>\<open>to-?do:|follow[- ]?up|next\s+step|assigned\s+to|your\s+task|your\s+action|\<close>
  \<^verbatim>\<open>remind\s+you|don'?t\s+forget|make\s+sure\s+you|ensure\s+you|you\s+(?:are|\<close>
  \<^verbatim>\<open>were)\s+asked)\b\<close>
  (IGNORECASE)
\<close>

definition trigger_re :: regex where
  "trigger_re = seqs [Wordb, alts [Str ''can you'', Str ''could you'', Str ''please'',
     Str ''would you mind'', Str ''i need you to'', seqs [Str ''you'', Opt (seqs [Plus Ws,
     Str ''will'']), Plus Ws, Str ''need to''], seqs [Str ''you'', Plus Ws, Str ''should''],
     seqs [Str ''you'', Plus Ws, Str ''must''], seqs [Str ''action'', Plus Ws, Str ''item''],
     Str ''action:'', Str ''todo:'', seqs [Str ''to'', Opt (Str ''-''), Str ''do:''],
     seqs [Str ''follow'', Opt (Cls False [Chr (CHR ''-''), Chr (CHR '' '')]), Str ''up''],
     seqs [Str ''next'', Plus Ws, Str ''step''], seqs [Str ''assigned'', Plus Ws, Str ''to''],
     seqs [Str ''your'', Plus Ws, Str ''task''], seqs [Str ''your'', Plus Ws, Str ''action''],
     seqs [Str ''remind'', Plus Ws, Str ''you''], seqs [Str ''don'', Opt (Str [CHR 0x27]),
     Str ''t'', Plus Ws, Str ''forget''], seqs [Str ''make'', Plus Ws, Str ''sure'', Plus Ws,
     Str ''you''], seqs [Str ''ensure'', Plus Ws, Str ''you''], seqs [Str ''you'', Plus Ws,
     alts [Str ''are'', Str ''were''], Plus Ws, Str ''asked'']], Wordb]"

text \<open>
  \<^verbatim>\<open>\b(eod|cob|end\s+of\s+(the\s+)?day)\b\<close>
\<close>

definition eod_re :: regex where
  "eod_re = seqs [Wordb, Grp 1 (alts [Str ''eod'', Str ''cob'', seqs [Str ''end'', Plus Ws,
     Str ''of'', Plus Ws, Opt (Grp 2 (seqs [Str ''the'', Plus Ws])), Str ''day'']]), Wordb]"

text \<open>
  \<^verbatim>\<open>\bend\s+of\s+(the\s+)?week\b\<close>
\<close>

definition end_of_week_re :: regex where
  "end_of_week_re = seqs [Wordb, Str ''end'', Plus Ws, Str ''of'', Plus Ws,
     Opt (Grp 1 (seqs [Str ''the'', Plus Ws])), Str ''week'', Wordb]"

text \<open>
  \<^verbatim>\<open>\bend\s+of\s+(the\s+)?month\b\<close>
\<close>

definition end_of_month_re :: regex where
  "end_of_month_re = seqs [Wordb, Str ''end'', Plus Ws, Str ''of'', Plus Ws,
     Opt (Grp 1 (seqs [Str ''the'', Plus Ws])), Str ''month'', Wordb]"

text \<open>
  \<^verbatim>\<open>\b(?:by|on|due)\s+(?:next\s+)?(monday|tuesday|wednesday|thursday|friday|saturday|\<close>
  \<^verbatim>\<open>sunday)\b\<close>
\<close>

definition weekday_re :: regex where
  "weekday_re = seqs [Wordb, alts [Str ''by'', Str ''on'', Str ''due''], Plus Ws,
     Opt (seqs [Str ''next'', Plus Ws]), Grp 1 (alts [Str ''monday'', Str ''tuesday'',
     Str ''wednesday'', Str ''thursday'', Str ''friday'', Str ''saturday'', Str ''sunday'']),
     Wordb]"

text \<open>
  \<^verbatim>\<open>\b(january|february|march|april|may|june|july|august|september|october|november|\<close>
  \<^verbatim>\<open>december|jan|feb|mar|apr|jun|jul|aug|sep|oct|nov|dec)\s+(\d{1,2})(?:st|nd|rd|\<close>
  \<^verbatim>\<open>th)?\s*(?:,?\s*(\d{4}))?\b\<close>
\<close>

definition month_day_re :: regex where
  "month_day_re = seqs [Wordb, Grp 1 (alts [Str ''january'', Str ''february'', Str ''march'',
     Str ''april'', Str ''may'', Str ''june'', Str ''july'', Str ''august'', Str ''september'',
     Str ''october'', Str ''november'', Str ''december'', Str ''jan'', Str ''feb'',
     Str ''mar'', Str ''apr'', Str ''jun'', Str ''jul'', Str ''aug'', Str ''sep'', Str ''oct'',
     Str ''nov'', Str ''dec'']), Plus Ws, Grp 2 (Rep 1 (Some 2) Dgt), Opt (alts [Str ''st'',
     Str ''nd'', Str ''rd'', Str ''th'']), Star Ws, Opt (seqs [Opt (Str '',''), Star Ws,
     Grp 3 (Rep 4 (Some 4) Dgt)]), Wordb]"

text \<open>
  \<^verbatim>\<open>\b(\d{4})-(\d{2})-(\d{2})\b\<close>
\<close>

definition iso_date_re :: regex where
  "iso_date_re = seqs [Wordb, Grp 1 (Rep 4 (Some 4) Dgt), Str ''-'',
     Grp 2 (Rep 2 (Some 2) Dgt), Str ''-'', Grp 3 (Rep 2 (Some 2) Dgt), Wordb]"

text \<open>
  \<^verbatim>\<open>\b(\d{1,2})/(\d{1,2})(?:/(\d{2,4}))?\b\<close>
\<close>

definition slash_date_re :: regex where
  "slash_date_re = seqs [Wordb, Grp 1 (Rep 1 (Some 2) Dgt), Str ''/'',
     Grp 2 (Rep 1 (Some 2) Dgt), Opt (seqs [Str ''/'', Grp 3 (Rep 2 (Some 4) Dgt)]), Wordb]"

text \<open>
  \<^verbatim>\<open>\b(?:by|due|before|no\s+later\s+than)\s+([\w/\-,\s]{2,35})\<close>
  (IGNORECASE)
\<close>

definition due_phrase_re :: regex where
  "due_phrase_re = seqs [Wordb, alts [Str ''by'', Str ''due'', Str ''before'',
     seqs [Str ''no'', Plus Ws, Str ''later'', Plus Ws, Str ''than'']], Plus Ws,
     Grp 1 (Rep 2 (Some 35) (Cls False [Word, Chr (CHR ''/''), Chr (CHR ''-''),
     Chr (CHR '',''), Space]))]"

text \<open>
  \<^verbatim>\<open>\b(urgent|asap|immediately|critical|blocker|p0|p1|top\s+priority)\b\<close>
\<close>

definition urgent_re :: regex where
  "urgent_re = seqs [Wordb, Grp 1 (alts [Str ''urgent'', Str ''asap'', Str ''immediately'',
     Str ''critical'', Str ''blocker'', Str ''p0'', Str ''p1'', seqs [Str ''top'', Plus Ws,
     Str ''priority'']]), Wordb]"

text \<open>
  \<^verbatim>\<open>\b(important|high\s+priority|soon|today|eod|cob|end\s+of\s+day)\b\<close>
\<close>

definition important_re :: regex where
  "important_re = seqs [Wordb, Grp 1 (alts [Str ''important'', seqs [Str ''high'', Plus Ws,
     Str ''priority''], Str ''soon'', Str ''today'', Str ''eod'', Str ''cob'',
     seqs [Str ''end'', Plus Ws, Str ''of'', Plus Ws, Str ''day'']]), Wordb]"

text \<open>
  \<^verbatim>\<open>^[-\u2022*>\u2022\u25cf]+\s*\<close>
\<close>

definition bullet_re :: regex where
  "bullet_re = seqs [Bol, Plus (Cls False [Chr (CHR ''-''), Chr (CHR ''*''), Chr (CHR ''>'')]),
     Star Ws]"

text \<open>
  \<^verbatim>\<open>\s{2,}\<close>
\<close>

definition spaces_re :: regex where
  "spaces_re = Rep 2 None Ws"

text \<open>
  \<^verbatim>\<open>[\n\r]+|(?<=[.!?])\s+\<close>
\<close>

definition line_split_re :: regex where
  "line_split_re = alts [Plus (Cls False [Chr (CHR 0x0A), Chr (CHR 0x0D)]),
     seqs [Behind False [Chr (CHR ''.''), Chr (CHR ''!''), Chr (CHR ''?'')], Plus Ws]]"

text \<open>
  \<^verbatim>\<open>^\[image:\<close>
  (IGNORECASE)
\<close>

definition skip_image_re :: regex where
  "skip_image_re = seqs [Bol, Str ''[image:'']"

text \<open>
  \<^verbatim>\<open>^(?:hi|hello|hey|dear|g\'?day|good\s+(?:morning|afternoon|evening|day))\b\<close>
  (IGNORECASE)
\<close>

definition skip_salutation_re :: regex where
  "skip_salutation_re = seqs [Bol, alts [Str ''hi'', Str ''hello'', Str ''hey'', Str ''dear'',
     seqs [Str ''g'', Opt (Str [CHR 0x27]), Str ''day''], seqs [Str ''good'', Plus Ws,
     alts [Str ''morning'', Str ''afternoon'', Str ''evening'', Str ''day'']]], Wordb]"

text \<open>
  \<^verbatim>\<open>^by\s+[A-Z][a-z]+(\s+[A-Z][a-z]+)*\s*$\<close>
\<close>

definition skip_byline_re :: regex where
  "skip_byline_re = seqs [Bol, Str ''by'', Plus Ws, Cls False [Range (CHR ''A'') (CHR ''Z'')],
     Plus (Cls False [Range (CHR ''a'') (CHR ''z'')]), Star (Grp 1 (seqs [Plus Ws,
     Cls False [Range (CHR ''A'') (CHR ''Z'')],
     Plus (Cls False [Range (CHR ''a'') (CHR ''z'')])])), Star Ws, Eol]"

text \<open>
  \<^verbatim>\<open>^(?:owner|lead|responsible|assignee|poc|dri|point\s+of\s+contact)\s*:\<close>
  (IGNORECASE)
\<close>

definition skip_role_re :: regex where
  "skip_role_re = seqs [Bol, alts [Str ''owner'', Str ''lead'', Str ''responsible'',
     Str ''assignee'', Str ''poc'', Str ''dri'', seqs [Str ''point'', Plus Ws, Str ''of'',
     Plus Ws, Str ''contact'']], Star Ws, Str '':'']"

text \<open>
  \<^verbatim>\<open>^on\s+\w\<close>
  (IGNORECASE)
\<close>

definition skip_reply_head_re :: regex where
  "skip_reply_head_re = seqs [Bol, Str ''on'', Plus Ws, Wch]"

text \<open>
  \<^verbatim>\<open>wrote:\s*$|<\s*$|@[\w.\-]+>\s*$\<close>
  (IGNORECASE)
\<close>

definition skip_reply_tail_re :: regex where
  "skip_reply_tail_re = alts [seqs [Str ''wrote:'', Star Ws, Eol], seqs [Str ''<'', Star Ws,
     Eol], seqs [Str ''@'', Plus (Cls False [Word, Chr (CHR ''.''), Chr (CHR ''-'')]),
     Str ''>'', Star Ws, Eol]]"

text \<open>
  \<^verbatim>\<open>@[\w.\-]+>\s*wrote:\s*$\<close>
  (IGNORECASE)
\<close>

definition skip_attribution_re :: regex where
  "skip_attribution_re = seqs [Str ''@'', Plus (Cls False [Word, Chr (CHR ''.''),
     Chr (CHR ''-'')]), Str ''>'', Star Ws, Str ''wrote:'', Star Ws, Eol]"

text \<open>
  \<^verbatim>\<open>^(?:google\s+llc|you\s+have\s+received\s+this\s+email\s+because|\<close>
  \<^verbatim>\<open>this\s+email\s+was\s+sent\s+to|unsubscribe|privacy\s+policy|\u00a9\s*\d{4}|\<close>
  \<^verbatim>\<open>all\s+rights\s+reserved|\d+\s+\w+.*(?:ave|blvd|pkwy|way|street|road|drive).*\busa\b|\<close>
  \<^verbatim>\<open>mountain\s+view|1600\s+amphitheatre)\<close>
  (IGNORECASE)
\<close>

definition skip_footer_re :: regex where
  "skip_footer_re = seqs [Bol, alts [seqs [Str ''google'', Plus Ws, Str ''llc''],
     seqs [Str ''you'', Plus Ws, Str ''have'', Plus Ws, Str ''received'', Plus Ws,
     Str ''this'', Plus Ws, Str ''email'', Plus Ws, Str ''because''], seqs [Str ''this'',
     Plus Ws, Str ''email'', Plus Ws, Str ''was'', Plus Ws, Str ''sent'', Plus Ws, Str ''to''],
     Str ''unsubscribe'', seqs [Str ''privacy'', Plus Ws, Str ''policy''],
     seqs [Str [CHR 0xA9], Star Ws, Rep 4 (Some 4) Dgt], seqs [Str ''all'', Plus Ws,
     Str ''rights'', Plus Ws, Str ''reserved''], seqs [Plus Dgt, Plus Ws, Plus Wch, Star Dot,
     alts [Str ''ave'', Str ''blvd'', Str ''pkwy'', Str ''way'', Str ''street'', Str ''road'',
     Str ''drive''], Star Dot, Wordb, Str ''usa'', Wordb], seqs [Str ''mountain'', Plus Ws,
     Str ''view''], seqs [Str ''1600'', Plus Ws, Str ''amphitheatre'']]]"

text \<open>
  \<^verbatim>\<open>^[\w\s.\-]+ shared (a |an )?(document|file|folder|spreadsheet|slide)\<close>
  (IGNORECASE)
\<close>

definition skip_shared_re :: regex where
  "skip_shared_re = seqs [Bol, Plus (Cls False [Word, Space, Chr (CHR ''.''),
     Chr (CHR ''-'')]), Str '' shared '', Opt (Grp 1 (alts [Str ''a '', Str ''an ''])),
     Grp 2 (alts [Str ''document'', Str ''file'', Str ''folder'', Str ''spreadsheet'',
     Str ''slide''])]"

text \<open>
  \<^verbatim>\<open>^[\w\s.\-]+\([\w.\-\+]+@[\w.\-]+\)\s+has\s+(invited|shared)\<close>
  (IGNORECASE)
\<close>

definition skip_invited_re :: regex where
  "skip_invited_re = seqs [Bol, Plus (Cls False [Word, Space, Chr (CHR ''.''),
     Chr (CHR ''-'')]), Str ''('', Plus (Cls False [Word, Chr (CHR ''.''), Chr (CHR ''-''),
     Chr (CHR ''+'')]), Str ''@'', Plus (Cls False [Word, Chr (CHR ''.''), Chr (CHR ''-'')]),
     Str '')'', Plus Ws, Str ''has'', Plus Ws, Grp 1 (alts [Str ''invited'', Str ''shared''])]"

text \<open>
  \<^verbatim>\<open>^[\w\s.\-]+([\(<])[\w.\-\+]+@[\w.\-]+\.(com|net|org|io)[>\)]\s*(?:has\s+invited|\<close>
  \<^verbatim>\<open>shared|wrote|said)?\<close>
  (IGNORECASE)
\<close>

definition skip_contact_re :: regex where
  "skip_contact_re = seqs [Bol, Plus (Cls False [Word, Space, Chr (CHR ''.''),
     Chr (CHR ''-'')]), Grp 1 (Cls False [Chr (CHR ''(''), Chr (CHR ''<'')]),
     Plus (Cls False [Word, Chr (CHR ''.''), Chr (CHR ''-''), Chr (CHR ''+'')]), Str ''@'',
     Plus (Cls False [Word, Chr (CHR ''.''), Chr (CHR ''-'')]), Str ''.'',
     Grp 2 (alts [Str ''com'', Str ''net'', Str ''org'', Str ''io'']),
     Cls False [Chr (CHR ''>''), Chr (CHR '')'')], Star Ws, Opt (alts [seqs [Str ''has'',
     Plus Ws, Str ''invited''], Str ''shared'', Str ''wrote'', Str ''said''])]"

text \<open>
  \<^verbatim>\<open>^[\w.\-\+]+@[\w.\-]+\s*\<close>
\<close>

definition skip_address_re :: regex where
  "skip_address_re = seqs [Bol, Plus (Cls False [Word, Chr (CHR ''.''), Chr (CHR ''-''),
     Chr (CHR ''+'')]), Str ''@'', Plus (Cls False [Word, Chr (CHR ''.''), Chr (CHR ''-'')]),
     Star Ws]"

text \<open>
  \<^verbatim>\<open>^[>\s]*(?:from|to|cc|bcc|subject|date|reply-to|message-id|delivered-to|received|\<close>
  \<^verbatim>\<open>x-[\w-]+)\s*:\<close>
  (IGNORECASE)
\<close>

definition skip_header_re :: regex where
  "skip_header_re = seqs [Bol, Star (Cls False [Chr (CHR ''>''), Space]), alts [Str ''from'',
     Str ''to'', Str ''cc'', Str ''bcc'', Str ''subject'', Str ''date'', Str ''reply-to'',
     Str ''message-id'', Str ''delivered-to'', Str ''received'', seqs [Str ''x-'',
     Plus (Cls False [Word, Chr (CHR ''-'')])]], Star Ws, Str '':'']"

text \<open>
  \<^verbatim>\<open>^[>\s]*(?:organizer|when|where|attendees?|time|location|event(?:\s+title)?|\<close>
  \<^verbatim>\<open>join\s+(?:zoom|the\s+meeting)|dial[\s\-]?in|conference\s+(?:id|room)|\<close>
  \<^verbatim>\<open>proposed\s+(?:new\s+)?time|video\s+call|meeting\s+link)\s*[:\-]\<close>
  (IGNORECASE)
\<close>

definition skip_calendar_re :: regex where
  "skip_calendar_re = seqs [Bol, Star (Cls False [Chr (CHR ''>''), Space]),
     alts [Str ''organizer'', Str ''when'', Str ''where'', seqs [Str ''attendee'',
     Opt (Str ''s'')], Str ''time'', Str ''location'', seqs [Str ''event'', Opt (seqs [Plus Ws,
     Str ''title''])], seqs [Str ''join'', Plus Ws, alts [Str ''zoom'', seqs [Str ''the'',
     Plus Ws, Str ''meeting'']]], seqs [Str ''dial'', Opt (Cls False [Space, Chr (CHR ''-'')]),
     Str ''in''], seqs [Str ''conference'', Plus Ws, alts [Str ''id'', Str ''room'']],
     seqs [Str ''proposed'', Plus Ws, Opt (seqs [Str ''new'', Plus Ws]), Str ''time''],
     seqs [Str ''video'', Plus Ws, Str ''call''], seqs [Str ''meeting'', Plus Ws,
     Str ''link'']], Star Ws, Cls False [Chr (CHR '':''), Chr (CHR ''-'')]]"

text \<open>
  \<^verbatim>\<open>^(?:www\.)?[\w\-]+\.(com|net|org|io|ai|co|us)\s*$\<close>
  (IGNORECASE)
\<close>

definition skip_domain_re :: regex where
  "skip_domain_re = seqs [Bol, Opt (Str ''www.''), Plus (Cls False [Word, Chr (CHR ''-'')]),
     Str ''.'', Grp 1 (alts [Str ''com'', Str ''net'', Str ''org'', Str ''io'', Str ''ai'',
     Str ''co'', Str ''us'']), Star Ws, Eol]"

text \<open>
  \<^verbatim>\<open>\+?\d[\d\s.\-\(\)]{6,}\d\<close>
\<close>

definition skip_phone_re :: regex where
  "skip_phone_re = seqs [Opt (Str ''+''), Dgt, Rep 6 None (Cls False [Digit, Space,
     Chr (CHR ''.''), Chr (CHR ''-''), Chr (CHR ''(''), Chr (CHR '')'')]), Dgt]"

text \<open>
  \<^verbatim>\<open>@[\w.\-]+\<close>
\<close>

definition skip_at_re :: regex where
  "skip_at_re = seqs [Str ''@'', Plus (Cls False [Word, Chr (CHR ''.''), Chr (CHR ''-'')])]"

text \<open>
  \<^verbatim>\<open>^\d{1,2}:\d{2}\s*(?:am|pm)\b\<close>
  (IGNORECASE)
\<close>

definition skip_timeslot_re :: regex where
  "skip_timeslot_re = seqs [Bol, Rep 1 (Some 2) Dgt, Str '':'', Rep 2 (Some 2) Dgt, Star Ws,
     alts [Str ''am'', Str ''pm''], Wordb]"

text \<open>
  \<^verbatim>\<open>^(?:mon|tue|wed|thu|fri|sat|sun)\w*\b\<close>
  (IGNORECASE)
\<close>

definition skip_dayname_re :: regex where
  "skip_dayname_re = seqs [Bol, alts [Str ''mon'', Str ''tue'', Str ''wed'', Str ''thu'',
     Str ''fri'', Str ''sat'', Str ''sun''], Star Wch, Wordb]"

text \<open>
  \<^verbatim>\<open>\b\d{1,2}(?::\d{2})?\s*(?:am|pm)\b\<close>
  (IGNORECASE)
\<close>

definition skip_clock_re :: regex where
  "skip_clock_re = seqs [Wordb, Rep 1 (Some 2) Dgt, Opt (seqs [Str '':'', Rep 2 (Some 2) Dgt]),
     Star Ws, alts [Str ''am'', Str ''pm''], Wordb]"

text \<open>
  \<^verbatim>\<open>^[A-Z][a-z]+(?:\s+[A-Z][a-z]+)+\s*(?:[-\u2013]\s*[\w\s]+)?$\<close>
\<close>

definition skip_person_re :: regex where
  "skip_person_re = seqs [Bol, Cls False [Range (CHR ''A'') (CHR ''Z'')],
     Plus (Cls False [Range (CHR ''a'') (CHR ''z'')]), Plus (seqs [Plus Ws,
     Cls False [Range (CHR ''A'') (CHR ''Z'')],
     Plus (Cls False [Range (CHR ''a'') (CHR ''z'')])]), Star Ws,
     Opt (seqs [Cls False [Chr (CHR ''-'')], Star Ws, Plus (Cls False [Word, Space])]), Eol]"

text \<open>
  \<^verbatim>\<open>\b(?:please|must|should|need|action|follow|next\s+step)\b\<close>
  (IGNORECASE)
\<close>

definition action_word_re :: regex where
  "action_word_re = seqs [Wordb, alts [Str ''please'', Str ''must'', Str ''should'',
     Str ''need'', Str ''action'', Str ''follow'', seqs [Str ''next'', Plus Ws, Str ''step'']],
     Wordb]"

text \<open>
  \<^verbatim>\<open>\b(?:to|and|or|but|for|in|of|at|by|from|with|into|onto|over|through|about|the|a|an|\<close>
  \<^verbatim>\<open>this|that|these|those|your|our|their|its|my|his|her|me|us|them|him|her)\s*$\<close>
  (IGNORECASE)
\<close>

definition skip_dangling_re :: regex where
  "skip_dangling_re = seqs [Wordb, alts [Str ''to'', Str ''and'', Str ''or'', Str ''but'',
     Str ''for'', Str ''in'', Str ''of'', Str ''at'', Str ''by'', Str ''from'', Str ''with'',
     Str ''into'', Str ''onto'', Str ''over'', Str ''through'', Str ''about'', Str ''the'',
     Str ''a'', Str ''an'', Str ''this'', Str ''that'', Str ''these'', Str ''those'',
     Str ''your'', Str ''our'', Str ''their'', Str ''its'', Str ''my'', Str ''his'',
     Str ''her'', Str ''me'', Str ''us'', Str ''them'', Str ''him'', Str ''her''], Star Ws,
     Eol]"

text \<open>
  \<^verbatim>\<open>[\w.\-\+]+@[\w.\-]+\<close>
\<close>

definition email_address_re :: regex where
  "email_address_re = seqs [Plus (Cls False [Word, Chr (CHR ''.''), Chr (CHR ''-''),
     Chr (CHR ''+'')]), Str ''@'', Plus (Cls False [Word, Chr (CHR ''.''), Chr (CHR ''-'')])]"

text \<open>
  \<^verbatim>\<open>\([^)]*\)\<close>
\<close>

definition parens_re :: regex where
  "parens_re = seqs [Str ''('', Star (Cls True [Chr (CHR '')'')]), Str '')'']"

text \<open>
  \<^verbatim>\<open>\b(?:can you|could you|please\s+(?:\w+\s+)?(?:do|send|review|confirm|check|let\s+me|\<close>
  \<^verbatim>\<open>update|share|schedule|submit|complete|sign|approve|prepare|create|follow|reply|\<close>
  \<^verbatim>\<open>respond|help|take|get|add|fix|write|provide|reach\s+out|look\s+into|look\s+at|\<close>
  \<^verbatim>\<open>make\s+sure|note\s+that)|action\s+item|follow[- ]?up|next\s+step|assigned)\b\<close>
  (IGNORECASE)
\<close>

definition directive_re :: regex where
  "directive_re = seqs [Wordb, alts [Str ''can you'', Str ''could you'', seqs [Str ''please'',
     Plus Ws, Opt (seqs [Plus Wch, Plus Ws]), alts [Str ''do'', Str ''send'', Str ''review'',
     Str ''confirm'', Str ''check'', seqs [Str ''let'', Plus Ws, Str ''me''], Str ''update'',
     Str ''share'', Str ''schedule'', Str ''submit'', Str ''complete'', Str ''sign'',
     Str ''approve'', Str ''prepare'', Str ''create'', Str ''follow'', Str ''reply'',
     Str ''respond'', Str ''help'', Str ''take'', Str ''get'', Str ''add'', Str ''fix'',
     Str ''write'', Str ''provide'', seqs [Str ''reach'', Plus Ws, Str ''out''],
     seqs [Str ''look'', Plus Ws, Str ''into''], seqs [Str ''look'', Plus Ws, Str ''at''],
     seqs [Str ''make'', Plus Ws, Str ''sure''], seqs [Str ''note'', Plus Ws, Str ''that'']]],
     seqs [Str ''action'', Plus Ws, Str ''item''], seqs [Str ''follow'',
     Opt (Cls False [Chr (CHR ''-''), Chr (CHR '' '')]), Str ''up''], seqs [Str ''next'',
     Plus Ws, Str ''step''], Str ''assigned''], Wordb]"

text \<open>
  \<^verbatim>\<open>^On\s+\w[^\n]{5,200}(?:\n[^\n]{0,100})?wrote:\s*$\<close>
  (IGNORECASE, MULTILINE)
\<close>

definition attribution_re :: regex where
  "attribution_re = seqs [Bol, Str ''On'', Plus Ws, Wch,
     Rep 5 (Some 200) (Cls True [Chr (CHR 0x0A)]), Opt (seqs [Str [CHR 0x0A],
     Rep 0 (Some 100) (Cls True [Chr (CHR 0x0A)])]), Str ''wrote:'', Star Ws, Eol]"

text \<open>
  \<^verbatim>\<open>^>+\<close>
\<close>

definition quote_mark_re :: regex where
  "quote_mark_re = seqs [Bol, Plus (Str ''>'')]"

text \<open>
  \<^verbatim>\<open>\n[-_]{3,}\s*\n\<close>
\<close>

definition separator_re :: regex where
  "separator_re = seqs [Str [CHR 0x0A], Rep 3 None (Cls False [Chr (CHR ''-''),
     Chr (CHR ''_'')]), Star Ws, Str [CHR 0x0A]]"

text \<open>
  \<^verbatim>\<open>\bOrganizer\s*:\<close>
  (IGNORECASE)
\<close>

definition cal_organizer_re :: regex where
  "cal_organizer_re = seqs [Wordb, Str ''Organizer'', Star Ws, Str '':'']"

text \<open>
  \<^verbatim>\<open>\bWhen\s*:\s+\S\<close>
  (IGNORECASE)
\<close>

definition cal_when_re :: regex where
  "cal_when_re = seqs [Wordb, Str ''When'', Star Ws, Str '':'', Plus Ws, NonWs]"

text \<open>
  \<^verbatim>\<open>\bWhere\s*:\s+\S\<close>
  (IGNORECASE)
\<close>

definition cal_where_re :: regex where
  "cal_where_re = seqs [Wordb, Str ''Where'', Star Ws, Str '':'', Plus Ws, NonWs]"

text \<open>
  \<^verbatim>\<open>\bJoin\s+(?:Zoom|Google\s+Meet|the\s+meeting|Teams)\b\<close>
  (IGNORECASE)
\<close>

definition cal_join_re :: regex where
  "cal_join_re = seqs [Wordb, Str ''Join'', Plus Ws, alts [Str ''Zoom'', seqs [Str ''Google'',
     Plus Ws, Str ''Meet''], seqs [Str ''the'', Plus Ws, Str ''meeting''], Str ''Teams''],
     Wordb]"

text \<open>
  \<^verbatim>\<open>(?:zoom\.us/j/|meet\.google\.com/|teams\.microsoft\.com)\<close>
  (IGNORECASE)
\<close>

definition cal_link_re :: regex where
  "cal_link_re = alts [Str ''zoom.us/j/'', Str ''meet.google.com/'',
     Str ''teams.microsoft.com'']"

text \<open>
  \<^verbatim>\<open>\bVideo\s+call\s+link\b\<close>
  (IGNORECASE)
\<close>

definition cal_video_re :: regex where
  "cal_video_re = seqs [Wordb, Str ''Video'', Plus Ws, Str ''call'', Plus Ws, Str ''link'',
     Wordb]"

text \<open>
  \<^verbatim>\<open>\bProposed\s+new\s+time\b\<close>
  (IGNORECASE)
\<close>

definition cal_proposed_re :: regex where
  "cal_proposed_re = seqs [Wordb, Str ''Proposed'', Plus Ws, Str ''new'', Plus Ws,
     Str ''time'', Wordb]"

text \<open>
  \<^verbatim>\<open>\bConference\s+(?:ID|room|call)\b\<close>
  (IGNORECASE)
\<close>

definition cal_conference_re :: regex where
  "cal_conference_re = seqs [Wordb, Str ''Conference'', Plus Ws, alts [Str ''ID'',
     Str ''room'', Str ''call''], Wordb]"

text \<open>
  \<^verbatim>\<open>\bDial-?in\b.*\bnumber\b\<close>
  (IGNORECASE)
\<close>

definition cal_dialin_re :: regex where
  "cal_dialin_re = seqs [Wordb, Str ''Dial'', Opt (Str ''-''), Str ''in'', Wordb, Star Dot,
     Wordb, Str ''number'', Wordb]"

text \<open>
  \<^verbatim>\<open>\bGuests\s+can\b\<close>
  (IGNORECASE)
\<close>

definition cal_guests_re :: regex where
  "cal_guests_re = seqs [Wordb, Str ''Guests'', Plus Ws, Str ''can'', Wordb]"

text \<open>
  \<^verbatim>\<open>\bGoing\?\s+(?:Yes|No|Maybe)\b\<close>
  (IGNORECASE)
\<close>

definition cal_going_re :: regex where
  "cal_going_re = seqs [Wordb, Str ''Going?'', Plus Ws, alts [Str ''Yes'', Str ''No'',
     Str ''Maybe''], Wordb]"

section \<open>The action-item extractor\<close>

text \<open>
  \<^verbatim>\<open>extract_action_items(source_type, content)\<close> and the functions nested in it. The
  values the function reads from its environment are arguments: \<open>user_name\<close> and
  \<open>user_first\<close> are the configured \<^verbatim>\<open>USER_NAME\<close> and its first word \<^verbatim>\<open>USER_FIRST\<close>, \<open>today\<close>
  is \<^verbatim>\<open>datetime.date.today()\<close>. The log lines are not modelled.
\<close>

text \<open>
  \<^verbatim>\<open>(?:^|[\s,;:([@])(?:\<close> USER_NAME \<^verbatim>\<open>|\<close> USER_FIRST \<^verbatim>\<open>)(?:\b|$)\<close> (IGNORECASE), the two
  names escaped, so that they match as they are written.
\<close>

definition name_re :: "string \<Rightarrow> string \<Rightarrow> regex" where
  "name_re user_name user_first =
     seqs [alts [Bol, Cls False [Space, Chr (CHR '',''), Chr (CHR '';''), Chr (CHR '':''),
                                 Chr (CHR ''(''), Chr (CHR ''[''), Chr (CHR ''@'')]],
           alts [Str user_name, Str user_first],
           alts [Wordb, Eol]]"

text \<open>
  \<^verbatim>\<open>^(?:\<close> USER_NAME \<^verbatim>\<open>|\<close> USER_FIRST \<^verbatim>\<open>)\s+\<close>
  \<^verbatim>\<open>(?:will|is|was|has|had|can|could|would|should|may|might)\b\<close> (IGNORECASE)
\<close>

definition third_person_re :: "string \<Rightarrow> string \<Rightarrow> regex" where
  "third_person_re user_name user_first =
     seqs [Bol, alts [Str user_name, Str user_first], Plus Ws,
           alts [Str ''will'', Str ''is'', Str ''was'', Str ''has'', Str ''had'', Str ''can'',
                 Str ''could'', Str ''would'', Str ''should'', Str ''may'', Str ''might''],
           Wordb]"

definition MONTHS :: "(string \<times> nat) list" where
  "MONTHS = [(''january'', 1), (''february'', 2), (''march'', 3), (''april'', 4),
     (''may'', 5), (''june'', 6), (''july'', 7), (''august'', 8),
     (''september'', 9), (''october'', 10), (''november'', 11), (''december'', 12),
     (''jan'', 1), (''feb'', 2), (''mar'', 3), (''apr'', 4),
     (''jun'', 6), (''jul'', 7), (''aug'', 8), (''sep'', 9), (''oct'', 10), (''nov'', 11), (''dec'', 12)]"

definition WEEKDAYS :: "(string \<times> nat) list" where
  "WEEKDAYS = [(''monday'', 0), (''tuesday'', 1), (''wednesday'', 2), (''thursday'', 3),
     (''friday'', 4), (''saturday'', 5), (''sunday'', 6)]"

text \<open>\<^verbatim>\<open>int(s)\<close> on a string of decimal digits.\<close>

definition digit_val :: "char \<Rightarrow> nat" where
  "digit_val c = of_char c - 48"

definition int_of :: "string \<Rightarrow> nat" where
  "int_of s = foldl (\<lambda>a c. 10 * a + digit_val c) 0 s"

definition next_weekday :: "date \<Rightarrow> string \<Rightarrow> py_error + date" where
  "next_weekday today name =
     (case map_of WEEKDAYS (lower name) of
        None \<Rightarrow> Inl KeyError
      | Some target \<Rightarrow>
          let d = (target + 7 - weekday today) mod 7;
              diff = (if d = 0 then 7 else d)
          in date_add today (int diff))"

text \<open>
  The three branches of \<^verbatim>\<open>_parse_date\<close> that run under \<^verbatim>\<open>try\<close>: a \<^verbatim>\<open>ValueError\<close> of the
  date constructor is caught there and the next branch is tried, which is the result
  \<open>None\<close> here.
\<close>

definition parse_month_day :: "date \<Rightarrow> rmatch \<Rightarrow> string option" where
  "parse_month_day today m =
     (case (map_of MONTHS (the (group m 1)), group m 2) of
        (Some mon, Some g2) \<Rightarrow>
          (let dy = int_of g2;
               yr = (case group m 3 of Some g3 \<Rightarrow> int_of g3 | None \<Rightarrow> year today)
           in case mk_date yr mon dy of
                Inl e \<Rightarrow> None
              | Inr d \<Rightarrow>
                  if date_less d today
                  then (case mk_date (year today + 1) (month d) (day d) of
                          Inl e \<Rightarrow> None
                        | Inr d' \<Rightarrow> Some (isoformat d'))
                  else Some (isoformat d))
      | _ \<Rightarrow> None)"

definition parse_iso :: "rmatch \<Rightarrow> string option" where
  "parse_iso m =
     (case (group m 1, group m 2, group m 3) of
        (Some g1, Some g2, Some g3) \<Rightarrow>
          (case mk_date (int_of g1) (int_of g2) (int_of g3) of
             Inl e \<Rightarrow> None
           | Inr d \<Rightarrow> Some (isoformat d))
      | _ \<Rightarrow> None)"

definition parse_slash :: "date \<Rightarrow> rmatch \<Rightarrow> string option" where
  "parse_slash today m =
     (case (group m 1, group m 2) of
        (Some g1, Some g2) \<Rightarrow>
          (let yr = (case group m 3 of Some g3 \<Rightarrow> int_of g3 | None \<Rightarrow> year today);
               yr = (if yr < 100 then yr + 2000 else yr)
           in case mk_date yr (int_of g1) (int_of g2) of
                Inl e \<Rightarrow> None
              | Inr d \<Rightarrow> Some (isoformat d))
      | _ \<Rightarrow> None)"

text \<open>The last three branches of \<^verbatim>\<open>_parse_date\<close>, from the month name on.\<close>

definition parse_date_tail :: "date \<Rightarrow> string \<Rightarrow> string option" where
  "parse_date_tail today t =
     (case (case re_search plain month_day_re t of
              Some m \<Rightarrow> parse_month_day today m | None \<Rightarrow> None) of
        Some r \<Rightarrow> Some r
      | None \<Rightarrow>
         (case (case re_search plain iso_date_re t of
                  Some m \<Rightarrow> parse_iso m | None \<Rightarrow> None) of
            Some r \<Rightarrow> Some r
          | None \<Rightarrow>
             (case re_search plain slash_date_re t of
                Some m \<Rightarrow> parse_slash today m | None \<Rightarrow> None)))"

definition iso_result :: "py_error + date \<Rightarrow> py_error + string option" where
  "iso_result r = (case r of Inl e \<Rightarrow> Inl e | Inr d \<Rightarrow> Inr (Some (isoformat d)))"

definition parse_date :: "date \<Rightarrow> string \<Rightarrow> py_error + string option" where
  "parse_date today text =
     (let t = lower text in
      if found plain eod_re t then Inr (Some (isoformat today))
      else if found plain end_of_week_re t then
        (let d = (4 + 7 - weekday today) mod 7;
             diff = (if d = 0 then 7 else d)
         in iso_result (date_add today (int diff)))
      else if found plain end_of_month_re t then
        (case mk_date (year today) (month today) 28 of
           Inl e \<Rightarrow> Inl e
         | Inr d28 \<Rightarrow>
            (case date_add d28 4 of
               Inl e \<Rightarrow> Inl e
             | Inr nm \<Rightarrow> iso_result (date_add nm (- int (day nm)))))
      else
        (case re_search plain weekday_re t of
           Some m \<Rightarrow> iso_result (next_weekday today (the (group m 1)))
         | None \<Rightarrow> Inr (parse_date_tail today t)))"

definition extract_due :: "date \<Rightarrow> string \<Rightarrow> py_error + string option" where
  "extract_due today sentence =
     (case re_search icase due_phrase_re sentence of
        Some m \<Rightarrow> parse_date today (m_text m)
      | None \<Rightarrow> Inr None)"

definition priority :: "string \<Rightarrow> string" where
  "priority sentence =
     (let s = lower sentence in
      if found plain urgent_re s then ''high''
      else if found plain important_re s then ''high''
      else ''medium'')"

definition clean :: "string \<Rightarrow> string" where
  "clean s =
     (let s = strip s;
          s = re_sub plain bullet_re [] s;
          s = re_sub plain spaces_re '' '' s
      in if s = [] then s else upper (take 1 s) @ drop 1 s)"

definition split_lines :: "string \<Rightarrow> string list" where
  "split_lines content =
     map strip (filter (\<lambda>l. strip l \<noteq> []) (re_split plain line_split_re content))"

text \<open>The hard-skip patterns, in the order of the source; a line that meets one is passed over.\<close>

definition skip_line :: "string \<Rightarrow> bool" where
  "skip_line line =
     (matches icase skip_image_re line
    \<or> (matches icase skip_salutation_re line \<and> length (split line) \<le> 20)
    \<or> matches plain skip_byline_re line
    \<or> matches icase skip_role_re line
    \<or> (matches icase skip_reply_head_re line \<and> found icase skip_reply_tail_re line)
    \<or> found icase skip_attribution_re line
    \<or> matches icase skip_footer_re line
    \<or> matches icase skip_shared_re line
    \<or> matches icase skip_invited_re line
    \<or> (matches icase skip_contact_re line \<and> length (split line) \<le> 15)
    \<or> (matches plain skip_address_re line \<and> length (split line) \<le> 4)
    \<or> matches icase skip_header_re line
    \<or> matches icase skip_calendar_re line
    \<or> matches icase skip_domain_re line
    \<or> (found plain skip_phone_re line \<and> found plain skip_at_re line)
    \<or> matches icase skip_timeslot_re line
    \<or> (matches icase skip_dayname_re line \<and> found icase skip_clock_re line
         \<and> length (split line) \<le> 12)
    \<or> (matches plain skip_person_re line \<and> length (split line) \<le> 6
         \<and> \<not> found icase action_word_re line)
    \<or> endswith (rstrip line) '':''
    \<or> (found icase skip_dangling_re line \<and> 5 \<le> length (split line))
    \<or> 2 \<le> length (re_findall plain email_address_re line))"

text \<open>
  The signal tests of one line that is not passed over: \<open>ctx\<close> is the line with the next
  line, if there is one, after a blank. The result tells whether the line is kept.
\<close>

definition has_signal :: "string \<Rightarrow> string \<Rightarrow> string \<Rightarrow> string \<Rightarrow> bool" where
  "has_signal user_name user_first line ctx =
     (let has_name = found icase (name_re user_name user_first) ctx;
          has_trigger = found icase trigger_re ctx
      in if \<not> (has_name \<or> has_trigger) then False
         else if has_name \<and> \<not> has_trigger \<and>
                 (\<not> found icase (name_re user_name user_first) (re_sub plain parens_re '' '' ctx)
                  \<or> matches icase (third_person_re user_name user_first) line) then False
         else if has_trigger \<and> \<not> has_name \<and>
                 (\<not> found icase directive_re line \<or> length (split line) < 5) then False
         else True)"

text \<open>
  The body of the loop for one line: \<open>None\<close> when the line yields no item, else the item
  and its key for the set \<^verbatim>\<open>seen_keys\<close>. The due date is computed before the length of the
  text is tested, as in the source, so its \<^verbatim>\<open>OverflowError\<close> comes first.
\<close>

definition line_item ::
  "string \<Rightarrow> string \<Rightarrow> date \<Rightarrow> string \<Rightarrow> string option \<Rightarrow> py_error + (item \<times> string) option" where
  "line_item user_name user_first today line nxt =
     (if skip_line line then Inr None
      else
        let ctx = line @ (case nxt of None \<Rightarrow> [] | Some l \<Rightarrow> '' '' @ l)
        in if \<not> has_signal user_name user_first line ctx then Inr None
           else (case extract_due today ctx of
                   Inl e \<Rightarrow> Inl e
                 | Inr due \<Rightarrow>
                     let prio = priority ctx;
                         text = clean line
                     in if length text < 8 \<or> 300 < length text then Inr None
                        else Inr (Some (\<lparr>item_text = Some text, item_due_date = due,
                                          item_priority = Some prio\<rparr>,
                                        take 80 (lower text)))))"

fun extract_loop ::
  "string \<Rightarrow> string \<Rightarrow> date \<Rightarrow> string list \<Rightarrow> string set \<Rightarrow> py_error + item list" where
  "extract_loop user_name user_first today [] seen_keys = Inr []"
| "extract_loop user_name user_first today (line # lines) seen_keys =
     (case line_item user_name user_first today line (case lines of [] \<Rightarrow> None | l # _ \<Rightarrow> Some l) of
        Inl e \<Rightarrow> Inl e
      | Inr None \<Rightarrow> extract_loop user_name user_first today lines seen_keys
      | Inr (Some (it, key)) \<Rightarrow>
          if key \<in> seen_keys then extract_loop user_name user_first today lines seen_keys
          else (case extract_loop user_name user_first today lines (insert key seen_keys) of
                  Inl e \<Rightarrow> Inl e
                | Inr items \<Rightarrow> Inr (it # items)))"

definition extract_action_items ::
  "string \<Rightarrow> string \<Rightarrow> date \<Rightarrow> string \<Rightarrow> string \<Rightarrow> py_error + item list" where
  "extract_action_items user_name user_first today source_type content =
     extract_loop user_name user_first today (split_lines content) {}"

section \<open>The email filters\<close>

text \<open>The loop of \<^verbatim>\<open>_strip_email_quotes\<close> over the lines of the body.\<close>

fun drop_quoted :: "bool \<Rightarrow> string list \<Rightarrow> string list" where
  "drop_quoted prev_was_quote [] = []"
| "drop_quoted prev_was_quote (line # lines) =
     (if matches plain quote_mark_re (strip line) then drop_quoted True lines
      else if prev_was_quote \<and> strip line = [] then drop_quoted prev_was_quote lines
      else line # drop_quoted False lines)"

definition strip_email_quotes :: "string \<Rightarrow> string" where
  "strip_email_quotes body =
     (let body = (case re_search icase_multiline attribution_re body of
                    Some m \<Rightarrow> take (m_start m) body | None \<Rightarrow> body);
          body = join [NL] (drop_quoted False (split_on NL [] body));
          body = (case re_search plain separator_re body of
                    Some m \<Rightarrow> take (m_start m) body | None \<Rightarrow> body)
      in strip body)"

definition CAL_PATTERNS :: "regex list" where
  "CAL_PATTERNS = [cal_organizer_re, cal_when_re, cal_where_re, cal_join_re, cal_link_re,
     cal_video_re, cal_proposed_re, cal_conference_re, cal_dialin_re, cal_guests_re,
     cal_going_re]"

definition calendar_hits :: "string \<Rightarrow> nat" where
  "calendar_hits body = length (filter (\<lambda>p. found icase p body) CAL_PATTERNS)"

definition is_calendar_body :: "string \<Rightarrow> bool" where
  "is_calendar_body body = (2 \<le> calendar_hits body)"

section \<open>The processed-message ledger\<close>

text \<open>
  The ledger is the set \<^verbatim>\<open>_processed\<close> in memory and the list in the file
  \<^verbatim>\<open>processed.json\<close>. \<^verbatim>\<open>list(_processed)\<close> lists a Python set in the order of its hash
  table, which the program does not control: the order is the argument \<open>list_of\<close>.
\<close>

record ledger =
  processed :: "string set"
  processed_file :: "string list"

definition is_processed :: "ledger \<Rightarrow> string \<Rightarrow> bool" where
  "is_processed l pid = (pid \<in> processed l)"

definition mark_processed :: "(string set \<Rightarrow> string list) \<Rightarrow> string \<Rightarrow> ledger \<Rightarrow> ledger" where
  "mark_processed list_of pid l =
     (let s = insert pid (processed l);
          items = last_n 10000 (list_of s)
      in \<lparr>processed = s, processed_file = items\<rparr>)"

text \<open>\<^verbatim>\<open>_load_processed\<close> at the start of the program, from a file that parses.\<close>

definition load_processed :: "string list \<Rightarrow> ledger" where
  "load_processed items = \<lparr>processed = set items, processed_file = items\<rparr>"

text \<open>A run of \<^verbatim>\<open>mark_processed\<close> calls, in order.\<close>

definition mark_all :: "(string set \<Rightarrow> string list) \<Rightarrow> string list \<Rightarrow> ledger \<Rightarrow> ledger" where
  "mark_all list_of pids l = foldl (\<lambda>l pid. mark_processed list_of pid l) l pids"

text \<open>A message id, as the email scanner builds it: \<^verbatim>\<open>email_\<close> and the id of the message.\<close>

definition msg_id :: "nat \<Rightarrow> string" where
  "msg_id n = ''email_'' @ dec n"

section \<open>Counting the stored tasks with a given text\<close>

definition count_text :: "store \<Rightarrow> string \<Rightarrow> nat" where
  "count_text tasks text =
     length (filter (\<lambda>t. lower (task_text t) = lower text)
                    (bucket tasks ''today'' @ bucket tasks ''longterm''))"

section \<open>What the claims call containing a phrase\<close>

text \<open>
  These definitions follow the words of the specification, not the source; the theorems
  compare them with the patterns of the source. A phrase is a list of words. A text
  mentions a phrase when the words occur in it in order, with white space between one word
  and the next, and with no letter, digit or underscore right before the first word or
  right after the last.
\<close>

fun spaced :: "string list \<Rightarrow> string \<Rightarrow> bool" where
  "spaced [] b = (b = [])"
| "spaced [w] b = (b = w)"
| "spaced (w # v # ws) b =
     (\<exists>sp r. b = w @ sp @ r \<and> sp \<noteq> [] \<and> (\<forall>c \<in> set sp. is_space c) \<and> spaced (v # ws) r)"

definition mentions :: "string list \<Rightarrow> string \<Rightarrow> bool" where
  "mentions phrase s =
     (\<exists>pre b post. s = pre @ b @ post \<and> spaced phrase b
         \<and> (pre = [] \<or> \<not> is_word (last pre)) \<and> (post = [] \<or> \<not> is_word (hd post)))"

definition urgency_vocabulary :: "string list list" where
  "urgency_vocabulary = [[''urgent''], [''asap''], [''immediately''], [''critical''],
     [''blocker''], [''p0''], [''p1''], [''top'', ''priority'']]"

definition importance_vocabulary :: "string list list" where
  "importance_vocabulary = [[''important''], [''high'', ''priority''], [''soon''], [''today''],
     [''eod''], [''cob''], [''end'', ''of'', ''day'']]"

text \<open>
  A text contains a string at the start of a word when the string occurs in it with no
  letter, digit or underscore right before it, and as whole words when there is none right
  after it either.
\<close>

definition contains :: "string \<Rightarrow> string \<Rightarrow> bool" where
  "contains s w = (\<exists>pre post. s = pre @ w @ post)"

definition contains_at_word_start :: "string \<Rightarrow> string \<Rightarrow> bool" where
  "contains_at_word_start s w =
     (\<exists>pre post. s = pre @ w @ post \<and> (pre = [] \<or> \<not> is_word (last pre)))"

definition contains_as_words :: "string \<Rightarrow> string \<Rightarrow> bool" where
  "contains_as_words s w =
     (\<exists>pre post. s = pre @ w @ post \<and> (pre = [] \<or> \<not> is_word (last pre))
         \<and> (post = [] \<or> \<not> is_word (hd post)))"

text \<open>The pattern for the words of a phrase with \<^verbatim>\<open>\s+\<close> between them.\<close>

fun phrase_re :: "string list \<Rightarrow> regex" where
  "phrase_re [] = Str []"
| "phrase_re [w] = Str w"
| "phrase_re (w # v # ws) = Seq (Str w) (Seq (Plus Ws) (phrase_re (v # ws)))"

text \<open>The pattern \<^verbatim>\<open>\b(...|...)\b\<close> for the phrases of a vocabulary.\<close>

definition vocabulary_re :: "string list list \<Rightarrow> regex" where
  "vocabulary_re vocabulary = seqs [Wordb, Grp 1 (alts (map phrase_re vocabulary)), Wordb]"

text \<open>The character before the position reached after the text \<open>pre\<close>.\<close>

definition prev_after :: "char option \<Rightarrow> string \<Rightarrow> char option" where
  "prev_after p pre = (if pre = [] then p else Some (last pre))"

section \<open>Example inputs\<close>

text \<open>A store that already holds the same text twice, and a candidate with that text.\<close>

definition mike_task :: "string \<Rightarrow> string \<Rightarrow> task" where
  "mike_task uid text =
     \<lparr>task_id = uid, task_text = text, task_priority = ''medium'', task_due = None,
      task_done = False, task_created = 0, task_auto = False, task_source = ''email'',
      task_sourceDetail = []\<rparr>"

definition twice_store :: store where
  "twice_store = [''today'' \<mapsto> [mike_task ''a1'' ''Reply to Mike about X''],
                  ''longterm'' \<mapsto> [mike_task ''a2'' ''reply to Mike about x'']]"

definition mike_item :: item where
  "mike_item = \<lparr>item_text = Some ''Reply to Mike about X'', item_due_date = None,
                 item_priority = Some ''medium''\<rparr>"

text \<open>
  A second candidate, and the store \<open>twice_store\<close> after another writer has appended a
  task to its first bucket.
\<close>

definition report_item :: item where
  "report_item = \<lparr>item_text = Some ''Send the report'', item_due_date = None,
                   item_priority = Some ''high''\<rparr>"

definition raced_store :: store where
  "raced_store = twice_store(''today'' \<mapsto> [mike_task ''a1'' ''Reply to Mike about X'',
                                          mike_task ''b1'' ''Call Drew about pricing''])"

definition nov6 :: date where
  "nov6 = \<lparr>year = 2026, month = 11, day = 6\<rparr>"

section \<open>Evaluating the character tables\<close>

text \<open>
  The character tests on the eight bits of a character, for the evaluation of the model
  on concrete texts.
\<close>

lemma is_upper_code [code]:
  "is_upper (Char b0 b1 b2 b3 b4 b5 b6 b7) =
     (\<not> b7 \<and> b6 \<and> \<not> b5 \<and> (b0 \<or> b1 \<or> b2 \<or> b3 \<or> b4) \<and> \<not> (b4 \<and> b3 \<and> (b2 \<or> (b1 \<and> b0))))"
  by (cases b0; cases b1; cases b2; cases b3; cases b4; cases b5; cases b6; cases b7;
      simp add: is_upper_def less_eq_char_def)

lemma is_lower_code [code]:
  "is_lower (Char b0 b1 b2 b3 b4 b5 b6 b7) =
     (\<not> b7 \<and> b6 \<and> b5 \<and> (b0 \<or> b1 \<or> b2 \<or> b3 \<or> b4) \<and> \<not> (b4 \<and> b3 \<and> (b2 \<or> (b1 \<and> b0))))"
  by (cases b0; cases b1; cases b2; cases b3; cases b4; cases b5; cases b6; cases b7;
      simp add: is_lower_def less_eq_char_def)

lemma is_digit_code [code]:
  "is_digit (Char b0 b1 b2 b3 b4 b5 b6 b7) =
     (\<not> b7 \<and> \<not> b6 \<and> b5 \<and> b4 \<and> \<not> (b3 \<and> (b2 \<or> b1)))"
  by (cases b0; cases b1; cases b2; cases b3; cases b4; cases b5; cases b6; cases b7;
      simp add: is_digit_def less_eq_char_def)

lemma is_space_code [code]:
  "is_space (Char b0 b1 b2 b3 b4 b5 b6 b7) =
     (\<not> b7 \<and> \<not> b6 \<and>
       ((\<not> b5 \<and> \<not> b4 \<and> b3 \<and> \<not> (b2 \<and> b1) \<and> (b2 \<or> b1 \<or> b0)) \<or>
        (\<not> b5 \<and> b4 \<and> b3 \<and> b2) \<or>
        (b5 \<and> \<not> b4 \<and> \<not> b3 \<and> \<not> b2 \<and> \<not> b1 \<and> \<not> b0)))"
  by (cases b0; cases b1; cases b2; cases b3; cases b4; cases b5; cases b6; cases b7;
      simp add: is_space_def)

lemma lower_char_code [code]:
  "lower_char (Char b0 b1 b2 b3 b4 b5 b6 b7) =
     (if is_upper (Char b0 b1 b2 b3 b4 b5 b6 b7) then Char b0 b1 b2 b3 b4 True b6 b7
      else Char b0 b1 b2 b3 b4 b5 b6 b7)"
  by (cases b0; cases b1; cases b2; cases b3; cases b4; cases b5; cases b6; cases b7;
      simp add: lower_char_def is_upper_def less_eq_char_def char_of_def bit_Suc_0_iff)

lemma upper_char_code [code]:
  "upper_char (Char b0 b1 b2 b3 b4 b5 b6 b7) =
     (if is_lower (Char b0 b1 b2 b3 b4 b5 b6 b7) then Char b0 b1 b2 b3 b4 False b6 b7
      else Char b0 b1 b2 b3 b4 b5 b6 b7)"
  by (cases b0; cases b1; cases b2; cases b3; cases b4; cases b5; cases b6; cases b7;
      simp add: upper_char_def is_lower_def less_eq_char_def char_of_def bit_Suc_0_iff)

section \<open>Properties of the auto-task merger\<close>

lemma report_facts:
  shows "strip ''Send the report'' = ''Send the report''"
    and "lower ''Send the report'' = ''send the report''"
    and "lower ''Reply to Mike about X'' = ''reply to mike about x''"
    and "lower ''reply to Mike about x'' = ''reply to mike about x''"
  by code_simp+

lemma report_run:
  "add_auto_task nov6 ''u1'' 5 twice_store report_item ''email'' ''inbox'' =
     Inr (Saved ''today'' (twice_store(''today'' \<mapsto>
        [mike_task ''a1'' ''Reply to Mike about X'',
         \<lparr>task_id = ''u1'', task_text = ''Send the report'', task_priority = ''high'',
          task_due = None, task_done = False, task_created = 5, task_auto = True,
          task_source = ''email'', task_sourceDetail = ''inbox''\<rparr>])))"
  by (simp add: add_auto_task_def text_of_def report_item_def report_facts all_texts_def bucket_def
      twice_store_def mike_task_def Let_def)

lemma add_auto_task_saved:
  assumes "add_auto_task today new_id now_ms at_load it source source_detail = Inr (Saved col tasks')"
  shows "col = ''today'' \<or> col = ''longterm''"
    and "\<exists>ts t. at_load col = Some ts \<and> tasks' = at_load(col \<mapsto> ts @ [t])"
  using assms
  by (auto simp: add_auto_task_def Let_def split: option.splits if_splits)

lemma add_auto_task_noop:
  assumes "strip (text_of it) = [] \<or> lower (strip (text_of it)) \<in> all_texts at_load"
  shows "add_auto_task today new_id now_ms at_load it source source_detail = Inr Rejected_empty \<or>
         add_auto_task today new_id now_ms at_load it source source_detail = Inr Duplicate_skipped"
  using assms by (auto simp: add_auto_task_def Let_def)

text \<open>
  Claim C10, amended. For every store that \<^verbatim>\<open>add_auto_task\<close> loads and every candidate,
  the store the call saves is the loaded one with a single new task appended to the end of
  one of the two buckets: every task of the loaded store is kept unchanged and in order,
  and every other entry of the store is the same. When the text is empty or a duplicate,
  and when the call raises, nothing is written and the file stays as it is. The file after
  the call is therefore the file before it with at most one task appended provided no
  other writer has replaced the file between the load and the save of the call; what
  another writer stored in between is overwritten by the save.
\<close>

theorem add_auto_task_store_frame:
  "(\<forall>col tasks'. add_auto_task today new_id now_ms at_load it source source_detail = Inr (Saved col tasks') \<longrightarrow>
      (col = ''today'' \<or> col = ''longterm'') \<and>
      (\<exists>ts t. at_load col = Some ts \<and> tasks' = at_load(col \<mapsto> ts @ [t])) \<and>
      (\<exists>t. bucket tasks' col = bucket at_load col @ [t]) \<and>
      (\<forall>c. c \<noteq> col \<longrightarrow> tasks' c = at_load c) \<and>
      store_file_after today new_id now_ms at_load before_save it source source_detail = tasks')
   \<and> (before_save = at_load \<longrightarrow>
        store_file_after today new_id now_ms at_load before_save it source source_detail = at_load \<or>
        (\<exists>col ts t. (col = ''today'' \<or> col = ''longterm'') \<and> at_load col = Some ts \<and>
           store_file_after today new_id now_ms at_load before_save it source source_detail
             = at_load(col \<mapsto> ts @ [t])))
   \<and> (strip (text_of it) = [] \<or> lower (strip (text_of it)) \<in> all_texts at_load \<longrightarrow>
        (\<forall>col tasks'. add_auto_task today new_id now_ms at_load it source source_detail \<noteq> Inr (Saved col tasks')) \<and>
        store_file_after today new_id now_ms at_load before_save it source source_detail = before_save)
   \<and> (\<forall>e. add_auto_task today new_id now_ms at_load it source source_detail = Inl e \<longrightarrow>
        store_file_after today new_id now_ms at_load before_save it source source_detail = before_save)"
proof -
  let ?r = "add_auto_task today new_id now_ms at_load it source source_detail"
  let ?f = "store_file_after today new_id now_ms at_load before_save it source source_detail"
  have f: "?f = store_after before_save ?r" by (simp add: store_file_after_def)
  have saved: "(col = ''today'' \<or> col = ''longterm'') \<and>
      (\<exists>ts t. at_load col = Some ts \<and> tasks' = at_load(col \<mapsto> ts @ [t])) \<and>
      (\<exists>t. bucket tasks' col = bucket at_load col @ [t]) \<and>
      (\<forall>c. c \<noteq> col \<longrightarrow> tasks' c = at_load c) \<and> ?f = tasks'"
    if r: "?r = Inr (Saved col tasks')" for col tasks'
  proof -
    from add_auto_task_saved [OF r] obtain ts t where
      c: "col = ''today'' \<or> col = ''longterm''" and ts: "at_load col = Some ts"
      and t: "tasks' = at_load(col \<mapsto> ts @ [t])"
      by blast
    from ts t have "bucket tasks' col = bucket at_load col @ [t]" by (simp add: bucket_def)
    moreover from t have "\<forall>c. c \<noteq> col \<longrightarrow> tasks' c = at_load c" by simp
    moreover from r have "?f = tasks'" by (simp add: f store_after_def)
    ultimately show ?thesis using c ts t by blast
  qed
  have same: "?f = at_load \<or> (\<exists>col ts t. (col = ''today'' \<or> col = ''longterm'') \<and> at_load col = Some ts \<and>
      ?f = at_load(col \<mapsto> ts @ [t]))" if b: "before_save = at_load"
  proof (cases "\<exists>col tasks'. ?r = Inr (Saved col tasks')")
    case True
    then obtain col tasks' where r: "?r = Inr (Saved col tasks')" by blast
    from saved [OF r] show ?thesis by blast
  next
    case False
    then have "?f = before_save"
      unfolding f store_after_def by (auto split: sum.splits outcome.splits)
    with b show ?thesis by simp
  qed
  have noop: "(\<forall>col tasks'. ?r \<noteq> Inr (Saved col tasks')) \<and> ?f = before_save"
    if n: "strip (text_of it) = [] \<or> lower (strip (text_of it)) \<in> all_texts at_load"
    using add_auto_task_noop [OF n, of today new_id now_ms source source_detail]
    by (auto simp: f store_after_def)
  have err: "?f = before_save" if "?r = Inl e" for e
    using that by (simp add: f store_after_def)
  from saved same noop err show ?thesis by blast
qed

text \<open>
  The claim as stated, for the store as it is when the call saves: between the load and
  the save of the call another writer has appended the task \<open>b1\<close> to the first bucket;
  the save writes the loaded tasks and the new one, and \<open>b1\<close> is gone.
\<close>

theorem add_auto_task_store_frame_counterexample:
  "bucket raced_store ''today'' =
     [mike_task ''a1'' ''Reply to Mike about X'', mike_task ''b1'' ''Call Drew about pricing''] \<and>
   bucket (store_file_after nov6 ''u1'' 5 twice_store raced_store report_item ''email'' ''inbox'') ''today'' =
     [mike_task ''a1'' ''Reply to Mike about X'',
      \<lparr>task_id = ''u1'', task_text = ''Send the report'', task_priority = ''high'',
       task_due = None, task_done = False, task_created = 5, task_auto = True,
       task_source = ''email'', task_sourceDetail = ''inbox''\<rparr>]"
  by (simp add: store_file_after_def report_run store_after_def bucket_def raced_store_def)

text \<open>
  The amended theorem at a store with a task in each bucket: a call that saves, with no
  writer in between, and a call with a duplicate text, which leaves the file as another
  writer left it.
\<close>

theorem add_auto_task_store_frame_witness:
  "add_auto_task nov6 ''u1'' 5 twice_store report_item ''email'' ''inbox'' =
     Inr (Saved ''today'' (twice_store(''today'' \<mapsto>
        [mike_task ''a1'' ''Reply to Mike about X'',
         \<lparr>task_id = ''u1'', task_text = ''Send the report'', task_priority = ''high'',
          task_due = None, task_done = False, task_created = 5, task_auto = True,
          task_source = ''email'', task_sourceDetail = ''inbox''\<rparr>]))) \<and>
   bucket twice_store ''today'' = [mike_task ''a1'' ''Reply to Mike about X''] \<and>
   bucket (store_file_after nov6 ''u1'' 5 twice_store twice_store report_item ''email'' ''inbox'') ''today'' =
     [mike_task ''a1'' ''Reply to Mike about X'',
      \<lparr>task_id = ''u1'', task_text = ''Send the report'', task_priority = ''high'',
       task_due = None, task_done = False, task_created = 5, task_auto = True,
       task_source = ''email'', task_sourceDetail = ''inbox''\<rparr>] \<and>
   store_file_after nov6 ''u1'' 5 twice_store twice_store report_item ''email'' ''inbox'' ''longterm'' =
     twice_store ''longterm'' \<and>
   lower (strip (text_of mike_item)) \<in> all_texts twice_store \<and>
   store_file_after nov6 ''u2'' 6 twice_store raced_store mike_item ''email'' ''inbox'' = raced_store"
proof -
  let ?t = "\<lparr>task_id = ''u1'', task_text = ''Send the report'', task_priority = ''high'',
          task_due = None, task_done = False, task_created = 5, task_auto = True,
          task_source = ''email'', task_sourceDetail = ''inbox''\<rparr>"
  let ?s1 = "twice_store(''today'' \<mapsto> [mike_task ''a1'' ''Reply to Mike about X'', ?t])"
  note f = add_auto_task_store_frame [of nov6 "''u1''" 5 twice_store report_item "''email''" "''inbox''" twice_store,
      THEN conjunct1, rule_format, OF report_run]
  note a = f [THEN conjunct2, THEN conjunct2, THEN conjunct2, THEN conjunct2]
  have b: "?s1 ''longterm'' = twice_store ''longterm''"
    using f [THEN conjunct2, THEN conjunct2, THEN conjunct2, THEN conjunct1] by simp
  have c: "bucket twice_store ''today'' = [mike_task ''a1'' ''Reply to Mike about X'']"
    by (simp add: bucket_def twice_store_def)
  have st: "strip ''Reply to Mike about X'' = ''Reply to Mike about X''" by code_simp
  have d: "lower (strip (text_of mike_item)) \<in> all_texts twice_store"
    by (simp add: mike_item_def text_of_def all_texts_def bucket_def twice_store_def mike_task_def
        report_facts st)
  note e = add_auto_task_store_frame [of nov6 "''u2''" 6 twice_store mike_item "''email''" "''inbox''" raced_store,
      THEN conjunct2, THEN conjunct2, THEN conjunct1, rule_format, OF disjI2, OF d, THEN conjunct2]
  have a': "bucket (store_file_after nov6 ''u1'' 5 twice_store twice_store report_item ''email'' ''inbox'') ''today'' =
      [mike_task ''a1'' ''Reply to Mike about X'', ?t]"
    unfolding a by (simp add: bucket_def)
  have b': "store_file_after nov6 ''u1'' 5 twice_store twice_store report_item ''email'' ''inbox'' ''longterm'' =
      twice_store ''longterm''"
    unfolding a by (rule b)
  show ?thesis
    by (intro conjI report_run c a' b' d e)
qed

section \<open>ISO dates as strings\<close>

text \<open>
  \<^verbatim>\<open>add_auto_task\<close> compares the due date with today's date as strings. On the ISO
  renderings of two dates the order of the strings is the order of the dates.
\<close>

lemma of_char_digit_char: "n < 10 \<Longrightarrow> (of_char (digit_char n) :: nat) = 48 + n"
proof -
  assume "n < 10"
  then have "n = 0 \<or> n = 1 \<or> n = 2 \<or> n = 3 \<or> n = 4 \<or> n = 5 \<or> n = 6 \<or> n = 7 \<or> n = 8 \<or> n = 9"
    by arith
  then show ?thesis by (elim disjE) (simp_all add: digit_char_def)
qed

lemma replicate_small: "replicate 1 x = [x]" "replicate 2 x = [x, x]" "replicate 3 x = [x, x, x]"
  by (simp_all add: numeral_2_eq_2 numeral_3_eq_3)

lemma digit_char_less: "a < 10 \<Longrightarrow> b < 10 \<Longrightarrow> (digit_char a < digit_char b) = (a < b)"
  by (simp add: less_char_def of_char_digit_char)

lemma digit_char_eq: "a < 10 \<Longrightarrow> b < 10 \<Longrightarrow> (digit_char a = digit_char b) = (a = b)"
  by (metis of_char_digit_char add_left_cancel)

lemma dec_lt_10: "n < 10 \<Longrightarrow> dec n = [digit_char n]"
  by (subst dec.simps) simp

lemma dec_ge_10: "10 \<le> n \<Longrightarrow> dec n = dec (n div 10) @ [digit_char (n mod 10)]"
  by (subst dec.simps) simp

lemma zfill2_dec: "n < 100 \<Longrightarrow> zfill 2 (dec n) = [digit_char (n div 10), digit_char (n mod 10)]"
  by (cases "n < 10") (simp_all add: dec_lt_10 dec_ge_10 zfill_def digit_char_def replicate_small)

lemma dec3: "100 \<le> n \<Longrightarrow> n < 1000 \<Longrightarrow>
  dec n = [digit_char (n div 100), digit_char (n div 10 mod 10), digit_char (n mod 10)]"
  by (simp add: dec_ge_10 [of n] dec_ge_10 [of "n div 10"] dec_lt_10 div_mult2_eq [symmetric])

lemma zfill4_dec: "n < 10000 \<Longrightarrow> zfill 4 (dec n) =
   [digit_char (n div 1000), digit_char (n div 100 mod 10), digit_char (n div 10 mod 10), digit_char (n mod 10)]"
proof -
  assume n: "n < 10000"
  consider "n < 10" | "10 \<le> n" "n < 100" | "100 \<le> n" "n < 1000" | "1000 \<le> n" by linarith
  then show ?thesis
  proof cases
    case 1 then show ?thesis by (simp add: dec_lt_10 zfill_def digit_char_def replicate_small)
  next
    case 2 then show ?thesis
      by (simp add: dec_ge_10 [of n] dec_lt_10 zfill_def digit_char_def replicate_small)
  next
    case 3 then show ?thesis
      by (simp add: dec3 zfill_def digit_char_def replicate_small)
  next
    case 4
    with n have "n div 10 < 1000" "100 \<le> n div 10" by simp_all
    with 4 show ?thesis
      by (simp add: dec_ge_10 [of n] dec3 zfill_def div_mult2_eq [symmetric])
  qed
qed

lemma less_append_same_length:
  "length xs = length ys \<Longrightarrow> ((xs @ u :: string) < ys @ v) = (xs < ys \<or> (xs = ys \<and> u < v))"
  by (induction xs ys rule: list_induct2) auto

lemma less_div_mod: "((a::nat) < b) = (a div k < b div k \<or> (a div k = b div k \<and> a mod k < b mod k))"
proof -
  have da: "a = k * (a div k) + a mod k" and db: "b = k * (b div k) + b mod k" by simp_all
  show ?thesis
  proof (cases "a div k = b div k")
    case True
    then show ?thesis using da db by (metis nat_add_left_cancel_less less_irrefl)
  next
    case False
    have "a < b \<Longrightarrow> a div k \<le> b div k" by (simp add: div_le_mono)
    moreover have "a div k < b div k \<Longrightarrow> a < b"
      by (metis div_le_mono not_less)
    ultimately show ?thesis using False by auto
  qed
qed

lemma eq_div_mod: "((a::nat) = b) = (a div k = b div k \<and> a mod k = b mod k)"
  by (metis div_mult_mod_eq)

lemma div10_mod10: "(n::nat) div 10 mod 10 = n mod 100 div 10"
proof -
  have "n mod 100 div 10 = n mod (10 * 10) div 10" by simp
  also have "\<dots> = n div 10 mod 10" by (simp only: mod_mult2_eq)
  finally show ?thesis by simp
qed

lemma zfill4_split: "n < 10000 \<Longrightarrow> zfill 4 (dec n) = zfill 2 (dec (n div 100)) @ zfill 2 (dec (n mod 100))"
proof -
  assume n: "n < 10000"
  then have "n div 100 < 100" by simp
  moreover have "n mod 100 < 100" by simp
  moreover have "n div 100 div 10 = n div 1000" by simp
  moreover have "n mod 100 mod 10 = n mod 10" by (simp add: mod_mod_cancel)
  ultimately show ?thesis using n
    by (simp add: zfill4_dec zfill2_dec div10_mod10)
qed

lemma zfill2_less: "a < 100 \<Longrightarrow> b < 100 \<Longrightarrow> (zfill 2 (dec a) < zfill 2 (dec b)) = (a < b)"
  by (simp add: zfill2_dec digit_char_less digit_char_eq less_div_mod [of a b 10])

lemma zfill2_eq: "a < 100 \<Longrightarrow> b < 100 \<Longrightarrow> (zfill 2 (dec a) = zfill 2 (dec b)) = (a = b)"
  by (simp add: zfill2_dec digit_char_eq eq_div_mod [of a b 10])

lemma length_zfill2: "n < 100 \<Longrightarrow> length (zfill 2 (dec n)) = 2"
  by (simp add: zfill2_dec)

lemma zfill4_less: "a < 10000 \<Longrightarrow> b < 10000 \<Longrightarrow> (zfill 4 (dec a) < zfill 4 (dec b)) = (a < b)"
proof -
  assume a: "a < 10000" and b: "b < 10000"
  then have h: "a div 100 < 100" "b div 100 < 100" "a mod 100 < 100" "b mod 100 < 100" by simp_all
  then have l: "length (zfill 2 (dec (a div 100))) = length (zfill 2 (dec (b div 100)))"
    by (simp add: length_zfill2)
  show ?thesis
    by (simp add: zfill4_split a b less_append_same_length [OF l] zfill2_less zfill2_eq h
        less_div_mod [of a b 100])
qed

lemma zfill4_eq: "a < 10000 \<Longrightarrow> b < 10000 \<Longrightarrow> (zfill 4 (dec a) = zfill 4 (dec b)) = (a = b)"
proof -
  assume a: "a < 10000" and b: "b < 10000"
  then have h: "a div 100 < 100" "b div 100 < 100" "a mod 100 < 100" "b mod 100 < 100" by simp_all
  then have l: "length (zfill 2 (dec (a div 100))) = length (zfill 2 (dec (b div 100)))"
    by (simp add: length_zfill2)
  show ?thesis
    by (simp add: zfill4_split a b l zfill2_eq h eq_div_mod [of a b 100])
qed

lemma length_zfill4: "n < 10000 \<Longrightarrow> length (zfill 4 (dec n)) = 4"
  by (simp add: zfill4_dec)

lemma valid_date_bounds: "valid_date d \<Longrightarrow> year d < 10000 \<and> month d < 100 \<and> day d < 100"
  by (auto simp: valid_date_def days_in_month_def split: if_splits)

lemma isoformat_less:
  assumes "valid_date a" "valid_date b"
  shows "(isoformat a < isoformat b) = date_less a b"
proof -
  from assms have ba: "year a < 10000" "month a < 100" "day a < 100"
    and bb: "year b < 10000" "month b < 100" "day b < 100"
    using valid_date_bounds by blast+
  have l4: "length (zfill 4 (dec (year a))) = length (zfill 4 (dec (year b)))"
    using ba bb by (simp add: length_zfill4)
  have l2: "length (zfill 2 (dec (month a))) = length (zfill 2 (dec (month b)))"
    using ba bb by (simp add: length_zfill2)
  show ?thesis
    unfolding isoformat_def date_less_def
    by (simp add: less_append_same_length [OF l4] less_append_same_length [OF l2]
        zfill4_less zfill4_eq zfill2_less zfill2_eq ba bb)
qed


section \<open>Bucket placement\<close>

lemma isoformat_nonempty: "isoformat d \<noteq> []"
  by (simp add: isoformat_def)

lemma add_auto_task_col:
  assumes "add_auto_task today new_id now_ms tasks it source source_detail = Inr (Saved col tasks')"
  shows "col = (case item_due_date it of None \<Rightarrow> ''today''
                | Some s \<Rightarrow> if s \<noteq> [] \<and> isoformat today < s then ''longterm'' else ''today'')"
    and "\<exists>ts t. tasks col = Some ts \<and> tasks' = tasks(col \<mapsto> ts @ [t]) \<and>
           task_due t = (case item_due_date it of None \<Rightarrow> None | Some s \<Rightarrow> if s = [] then None else Some s)"
  using assms
  by (auto simp: add_auto_task_def Let_def split: option.splits if_splits)

text \<open>
  Claim C1. When \<^verbatim>\<open>add_auto_task\<close> stores a new task, the bucket is \<open>longterm\<close> if and
  only if the candidate's due date is present and strictly after the current date: a
  candidate with no due date goes to \<open>today\<close>, and a candidate whose due date is the ISO
  rendering of a date \<open>d\<close> goes to \<open>longterm\<close> exactly when \<open>d\<close> is after today, and to
  \<open>today\<close> otherwise (\<open>d\<close> equal to today or before it). The due dates that
  \<^verbatim>\<open>extract_action_items\<close> produces are ISO renderings of dates.
\<close>

theorem add_auto_task_bucket:
  assumes "valid_date today"
      and "add_auto_task today new_id now_ms tasks it source source_detail = Inr (Saved col tasks')"
  shows "(item_due_date it = None \<longrightarrow> col = ''today'') \<and>
         (\<forall>d. valid_date d \<and> item_due_date it = Some (isoformat d) \<longrightarrow>
              (col = ''longterm'') = date_less today d \<and>
              (col = ''today'') = (\<not> date_less today d)) \<and>
         (col = ''longterm'' \<or> col = ''today'') \<and>
         (\<exists>ts t. tasks col = Some ts \<and> tasks' = tasks(col \<mapsto> ts @ [t]))"
proof -
  note c = add_auto_task_col [OF assms(2)]
  have "col = ''today''" if "item_due_date it = None"
    using c(1) that by simp
  moreover have "(col = ''longterm'') = date_less today d \<and> (col = ''today'') = (\<not> date_less today d)"
    if "valid_date d" "item_due_date it = Some (isoformat d)" for d
    using c(1) that assms(1) by (simp add: isoformat_nonempty isoformat_less)
  moreover have "col = ''longterm'' \<or> col = ''today''"
    using c(1) by (simp split: option.splits if_splits)
  ultimately show ?thesis using c(2) by blast
qed

lemma iso_example: "isoformat \<lparr>year = 2026, month = 11, day = 7\<rparr> = ''2026-11-07''"
  by (simp add: isoformat_def zfill_def dec.simps digit_char_def)

text \<open>The theorem for a due date of tomorrow.\<close>

theorem add_auto_task_bucket_witness:
  "valid_date \<lparr>year = 2026, month = 11, day = 6\<rparr> \<and>
   valid_date \<lparr>year = 2026, month = 11, day = 7\<rparr> \<and>
   add_auto_task \<lparr>year = 2026, month = 11, day = 6\<rparr> ''u1'' 5
       [''today'' \<mapsto> [], ''longterm'' \<mapsto> []]
       \<lparr>item_text = Some ''Send the report'', item_due_date = Some ''2026-11-07'', item_priority = Some ''high''\<rparr>
       ''email'' ''inbox''
     = Inr (Saved ''longterm'' [''today'' \<mapsto> [], ''longterm'' \<mapsto> [\<lparr>task_id = ''u1'', task_text = ''Send the report'',
              task_priority = ''high'', task_due = Some ''2026-11-07'', task_done = False, task_created = 5,
              task_auto = True, task_source = ''email'', task_sourceDetail = ''inbox''\<rparr>]]) \<and>
   date_less \<lparr>year = 2026, month = 11, day = 6\<rparr> \<lparr>year = 2026, month = 11, day = 7\<rparr>"
proof -
  let ?today = "\<lparr>year = 2026, month = 11, day = 6\<rparr>"
  let ?d = "\<lparr>year = 2026, month = 11, day = 7\<rparr>"
  let ?it = "\<lparr>item_text = Some ''Send the report'', item_due_date = Some ''2026-11-07'', item_priority = Some ''high''\<rparr>"
  let ?s1 = "[''today'' \<mapsto> [], ''longterm'' \<mapsto> [\<lparr>task_id = ''u1'', task_text = ''Send the report'',
              task_priority = ''high'', task_due = Some ''2026-11-07'', task_done = False, task_created = 5,
              task_auto = True, task_source = ''email'', task_sourceDetail = ''inbox''\<rparr>]]"
  have v: "valid_date ?today" "valid_date ?d"
    by (simp_all add: valid_date_def days_in_month_def)
  have run: "add_auto_task ?today ''u1'' 5 [''today'' \<mapsto> [], ''longterm'' \<mapsto> []] ?it ''email'' ''inbox''
      = Inr (Saved ''longterm'' ?s1)"
    by (simp add: add_auto_task_def all_texts_def bucket_def strip_def lstrip_def rstrip_def
          is_space_def Let_def text_of_def isoformat_def zfill_def dec.simps digit_char_def)
  have due: "item_due_date ?it = Some (isoformat ?d)"
    by (simp add: iso_example)
  from add_auto_task_bucket [OF v(1) run] v(2) due
  have "date_less ?today ?d" by blast
  with v run show ?thesis by blast
qed

section \<open>Merging the same text twice\<close>

lemma in_set_map_filter: "(y \<in> set (map g xs)) = (filter (\<lambda>t. g t = y) xs \<noteq> [])"
  by (induction xs) auto

lemma in_all_texts: "(lower x \<in> all_texts tasks) = (0 < count_text tasks x)"
  unfolding all_texts_def count_text_def length_greater_0_conv
  by (rule in_set_map_filter)

lemma count_text_saved:
  assumes "col = ''today'' \<or> col = ''longterm''" "tasks col = Some ts"
  shows "count_text (tasks(col \<mapsto> ts @ [t])) x =
         count_text tasks x + (if lower (task_text t) = lower x then 1 else 0)"
  using assms by (auto simp: count_text_def bucket_def)

lemma add_auto_task_cases:
  "add_auto_task today new_id now_ms tasks it source source_detail =
     (if strip (text_of it) = [] then Inr Rejected_empty
      else if 0 < count_text tasks (strip (text_of it)) then Inr Duplicate_skipped
      else let col = (case item_due_date it of None \<Rightarrow> ''today''
                      | Some s \<Rightarrow> if s \<noteq> [] \<and> isoformat today < s then ''longterm'' else ''today'')
           in (case tasks col of None \<Rightarrow> Inl KeyError
               | Some ts \<Rightarrow> Inr (Saved col (tasks(col \<mapsto> ts @ [
                   \<lparr>task_id = new_id, task_text = strip (text_of it),
                     task_priority = (case item_priority it of None \<Rightarrow> ''medium''
                        | Some p \<Rightarrow> if p \<in> {''high'', ''medium'', ''low''} then p else ''medium''),
                     task_due = (case item_due_date it of None \<Rightarrow> None | Some s \<Rightarrow> if s = [] then None else Some s),
                     task_done = False, task_created = now_ms,
                     task_auto = True, task_source = source, task_sourceDetail = source_detail\<rparr>])))))"
  by (auto simp: add_auto_task_def Let_def in_all_texts [symmetric] split: option.splits)

lemma count_after_first:
  assumes "tasks ''today'' \<noteq> None" "tasks ''longterm'' \<noteq> None" "strip (text_of it) \<noteq> []"
  shows "count_text (store_after tasks (add_auto_task today new_id now_ms tasks it source source_detail))
           (strip (text_of it)) = max 1 (count_text tasks (strip (text_of it)))"
proof (cases "0 < count_text tasks (strip (text_of it))")
  case True
  then show ?thesis using assms(3)
    by (simp add: add_auto_task_cases store_after_def)
next
  case False
  then show ?thesis using assms
    by (auto simp: add_auto_task_cases store_after_def Let_def count_text_saved split: option.splits)
qed

text \<open>
  Claim C4, amended. For every store that has both buckets and every candidate whose text
  is not blank, two calls of \<^verbatim>\<open>add_auto_task\<close> with the same text, even in a different
  letter case, store at most one new task: the second call is skipped as a duplicate and
  leaves the store as the first call left it. Afterwards the number of stored tasks with
  that text, compared without case, is the number there was before, or 1 if there was
  none; so it is exactly 1 whenever at most one stored task had the text before. Tasks
  with equal texts that are already in the store are not removed.
\<close>

theorem add_auto_task_twice:
  assumes "tasks ''today'' \<noteq> None" and "tasks ''longterm'' \<noteq> None"
      and "strip (text_of it1) \<noteq> []"
      and "lower (strip (text_of it2)) = lower (strip (text_of it1))"
      and "s1 = store_after tasks (add_auto_task today1 id1 now1 tasks it1 source1 detail1)"
      and "s2 = store_after s1 (add_auto_task today2 id2 now2 s1 it2 source2 detail2)"
  shows "add_auto_task today2 id2 now2 s1 it2 source2 detail2 = Inr Duplicate_skipped \<and>
         s2 = s1 \<and>
         count_text s2 (strip (text_of it1)) = max 1 (count_text tasks (strip (text_of it1))) \<and>
         (count_text tasks (strip (text_of it1)) \<le> 1 \<longrightarrow> count_text s2 (strip (text_of it1)) = 1)"
proof -
  have c1: "count_text s1 (strip (text_of it1)) = max 1 (count_text tasks (strip (text_of it1)))"
    unfolding assms(5) using assms(1-3) by (rule count_after_first)
  have "count_text s1 (strip (text_of it2)) = count_text s1 (strip (text_of it1))"
    using assms(4) by (simp add: count_text_def)
  with c1 have pos: "0 < count_text s1 (strip (text_of it2))" by simp
  have ne: "strip (text_of it2) \<noteq> []"
    using assms(3,4) by (auto simp: lower_def)
  have r2: "add_auto_task today2 id2 now2 s1 it2 source2 detail2 = Inr Duplicate_skipped"
    using pos ne by (simp add: add_auto_task_cases)
  then have "s2 = s1" by (simp add: assms(6) store_after_def)
  with r2 c1 show ?thesis by auto
qed

lemma lower_mike: "lower ''Reply to Mike about X'' = ''reply to mike about x''"
  "lower ''reply to Mike about x'' = ''reply to mike about x''"
  by code_simp+

lemma strip_mike: "strip ''Reply to Mike about X'' = ''Reply to Mike about X''"
  by code_simp

text \<open>
  The claim as stated, for every store: a store that already holds the text twice still
  holds it twice after the two calls.
\<close>

theorem add_auto_task_twice_counterexample:
  "count_text
     (store_after (store_after twice_store (add_auto_task nov6 ''u1'' 1 twice_store mike_item ''email'' ''inbox''))
        (add_auto_task nov6 ''u2'' 2
           (store_after twice_store (add_auto_task nov6 ''u1'' 1 twice_store mike_item ''email'' ''inbox''))
           mike_item ''email'' ''inbox''))
     ''Reply to Mike about X'' = 2"
proof -
  have t: "text_of mike_item = ''Reply to Mike about X''"
    by (simp add: mike_item_def text_of_def)
  have c: "count_text twice_store ''Reply to Mike about X'' = 2"
    by (simp add: count_text_def twice_store_def bucket_def mike_task_def lower_mike)
  have r: "add_auto_task today new_id now_ms twice_store mike_item source source_detail = Inr Duplicate_skipped"
    for today new_id now_ms source source_detail
    by (simp add: add_auto_task_cases t strip_mike c)
  show ?thesis
    by (simp add: r store_after_def c)
qed

text \<open>The amended theorem on the empty store.\<close>

theorem add_auto_task_twice_witness:
  "[''today'' \<mapsto> [], ''longterm'' \<mapsto> ([] :: task list)] ''today'' \<noteq> None \<and>
   [''today'' \<mapsto> [], ''longterm'' \<mapsto> ([] :: task list)] ''longterm'' \<noteq> None \<and>
   strip (text_of mike_item) \<noteq> [] \<and>
   count_text [''today'' \<mapsto> [], ''longterm'' \<mapsto> []] (strip (text_of mike_item)) \<le> 1 \<and>
   count_text
     (store_after (store_after [''today'' \<mapsto> [], ''longterm'' \<mapsto> []]
        (add_auto_task nov6 ''u1'' 1 [''today'' \<mapsto> [], ''longterm'' \<mapsto> []] mike_item ''email'' ''inbox''))
        (add_auto_task nov6 ''u2'' 2
           (store_after [''today'' \<mapsto> [], ''longterm'' \<mapsto> []]
              (add_auto_task nov6 ''u1'' 1 [''today'' \<mapsto> [], ''longterm'' \<mapsto> []] mike_item ''email'' ''inbox''))
           mike_item ''email'' ''inbox''))
     (strip (text_of mike_item)) = 1"
proof -
  let ?s0 = "[''today'' \<mapsto> [], ''longterm'' \<mapsto> ([] :: task list)]"
  have t: "strip (text_of mike_item) = ''Reply to Mike about X''"
    by (simp add: mike_item_def text_of_def strip_mike)
  have a: "?s0 ''today'' \<noteq> None" "?s0 ''longterm'' \<noteq> None" by simp_all
  have b: "strip (text_of mike_item) \<noteq> []" by (simp add: t)
  have c: "count_text ?s0 (strip (text_of mike_item)) \<le> 1"
    by (simp add: count_text_def bucket_def)
  from add_auto_task_twice [where tasks = ?s0 and ?it1.0 = mike_item and ?it2.0 = mike_item
      and ?today1.0 = nov6 and ?id1.0 = "''u1''" and ?now1.0 = 1 and ?source1.0 = "''email''"
      and ?detail1.0 = "''inbox''" and ?today2.0 = nov6 and ?id2.0 = "''u2''" and ?now2.0 = 2
      and ?source2.0 = "''email''" and ?detail2.0 = "''inbox''", OF a b refl refl refl] c
  have "count_text
     (store_after (store_after ?s0 (add_auto_task nov6 ''u1'' 1 ?s0 mike_item ''email'' ''inbox''))
        (add_auto_task nov6 ''u2'' 2
           (store_after ?s0 (add_auto_task nov6 ''u1'' 1 ?s0 mike_item ''email'' ''inbox''))
           mike_item ''email'' ''inbox''))
     (strip (text_of mike_item)) = 1"
    by blast
  with a b c show ?thesis by blast
qed

section \<open>The ledger keeps no order\<close>

lemma int_of_snoc: "int_of (s @ [c]) = 10 * int_of s + digit_val c"
  by (simp add: int_of_def)

lemma digit_val_digit_char: "n < 10 \<Longrightarrow> digit_val (digit_char n) = n"
proof -
  assume "n < 10"
  then have "n = 0 \<or> n = 1 \<or> n = 2 \<or> n = 3 \<or> n = 4 \<or> n = 5 \<or> n = 6 \<or> n = 7 \<or> n = 8 \<or> n = 9"
    by arith
  then show ?thesis by (elim disjE) (simp_all add: digit_char_def digit_val_def)
qed

lemma int_of_dec: "int_of (dec n) = n"
proof (induction n rule: dec.induct)
  case (1 n)
  show ?case
  proof (cases "n < 10")
    case True
    then show ?thesis
      by (subst dec.simps) (simp add: int_of_def digit_val_digit_char)
  next
    case False
    with "1.IH" have "int_of (dec (n div 10)) = n div 10" by simp
    with False show ?thesis
      by (subst dec.simps) (simp add: int_of_snoc digit_val_digit_char)
  qed
qed

lemma inj_dec: "inj dec"
  by (metis int_of_dec injI)

lemma inj_msg_id: "inj msg_id"
  using inj_dec by (auto simp: msg_id_def inj_def)

lemma processed_mark_all: "processed (mark_all list_of pids l) = processed l \<union> set pids"
  unfolding mark_all_def
  by (induction pids arbitrary: l) (auto simp: mark_processed_def Let_def)

lemma file_mark_processed:
  "length (processed_file (mark_processed list_of pid l)) \<le> 10000"
  by (simp add: mark_processed_def Let_def last_n_def)

text \<open>
  Claim C3 at 10001 calls of \<^verbatim>\<open>mark_processed\<close> with the distinct ids \<open>email_0\<close>, ...,
  \<open>email_10000\<close>, whatever the order in which the set is listed: the claim has the oldest
  id evicted and the ledger capped at 10000 ids, but \<^verbatim>\<open>is_processed\<close> reads the set in
  memory, which is never cut, so the oldest id is still reported and the set holds 10001
  ids. Only the list written to the file is cut to 10000 entries, and it keeps the last
  ones in the listing order of the set, which is not the order of the calls.
\<close>

theorem ledger_not_capped:
  "is_processed (mark_all list_of (map msg_id [0..<10001]) \<lparr>processed = {}, processed_file = []\<rparr>) (msg_id 0)
   \<and> card (processed (mark_all list_of (map msg_id [0..<10001]) \<lparr>processed = {}, processed_file = []\<rparr>)) = 10001"
proof -
  have "card (msg_id ` {0..<10001}) = 10001"
    using inj_msg_id by (subst card_image) (auto simp: inj_on_def inj_def)
  then show ?thesis
    by (simp add: is_processed_def processed_mark_all)
qed

section \<open>Stripping the quoted part of an email\<close>

text \<open>
  Claim C7. For the body \<^verbatim>\<open>New paragraph.\<close>, an empty line, the attribution line
  \<^verbatim>\<open>On Tue, Jan 2 at 3:00 PM A <a@x.com> wrote:\<close> and the quoted line \<^verbatim>\<open>> old content\<close>,
  \<^verbatim>\<open>_strip_email_quotes\<close> returns exactly \<^verbatim>\<open>New paragraph.\<close>
\<close>

theorem strip_email_quotes_example:
  "strip_email_quotes (''New paragraph.'' @ [NL, NL] @ ''On Tue, Jan 2 at 3:00 PM A <a@x.com> wrote:''
       @ [NL] @ ''> old content'') = ''New paragraph.''"
  by code_simp

section \<open>Dates written with a slash\<close>

lemma due_0305_regex:
  shows "\<not> found plain eod_re ''due 03/05''"
    and "\<not> found plain end_of_week_re ''due 03/05''"
    and "\<not> found plain end_of_month_re ''due 03/05''"
    and "re_search plain weekday_re ''due 03/05'' = None"
    and "re_search plain month_day_re ''due 03/05'' = None"
    and "re_search plain iso_date_re ''due 03/05'' = None"
    and "map_option (\<lambda>m. (group m 1, group m 2, group m 3)) (re_search plain slash_date_re ''due 03/05'')
           = Some (Some ''03'', Some ''05'', None)"
    and "lower ''due 03/05'' = ''due 03/05''"
    and "int_of ''03'' = 3"
    and "int_of ''05'' = 5"
    and "map_option m_text (re_search icase due_phrase_re ''due 03/05'') = Some ''due 03/05''"
  by code_simp+

lemma parse_slash_0305:
  assumes "valid_date today" "100 \<le> year today"
      and "group m 1 = Some ''03''" "group m 2 = Some ''05''" "group m 3 = None"
  shows "parse_slash today m = Some (isoformat \<lparr>year = year today, month = 3, day = 5\<rparr>)"
proof -
  from assms have v: "valid_date \<lparr>year = year today, month = 3, day = 5\<rparr>"
    by (simp add: valid_date_def days_in_month_def)
  from assms(2) have y: "\<not> year today < 100" by simp
  show ?thesis
    using assms(3-5) by (simp add: parse_slash_def due_0305_regex(9,10) y mk_date_def v Let_def)
qed

text \<open>
  At every current date from the year 100 on, \<^verbatim>\<open>due 03/05\<close> is March 5 of the current
  year, whether that day is past or not.
\<close>

lemma slash_date_current_year:
  assumes "valid_date today" "100 \<le> year today"
  shows "extract_due today ''due 03/05'' = Inr (Some (isoformat \<lparr>year = year today, month = 3, day = 5\<rparr>))"
proof -
  note r = due_0305_regex
  obtain m where m: "re_search plain slash_date_re ''due 03/05'' = Some m"
    "group m 1 = Some ''03''" "group m 2 = Some ''05''" "group m 3 = None"
    using r(7) by auto
  obtain p where p: "re_search icase due_phrase_re ''due 03/05'' = Some p" "m_text p = ''due 03/05''"
    using r(11) by auto
  have tail: "parse_date_tail today ''due 03/05'' = Some (isoformat \<lparr>year = year today, month = 3, day = 5\<rparr>)"
    by (simp add: parse_date_tail_def r(5,6) m(1) parse_slash_0305 [OF assms m(2-4)])
  have "parse_date today ''due 03/05'' = Inr (Some (isoformat \<lparr>year = year today, month = 3, day = 5\<rparr>))"
    by (simp add: parse_date_def r(1-4,8) tail)
  with p show ?thesis
    by (simp add: extract_due_def)
qed

text \<open>
  Claim C2 at the current date 2026-11-06 and the text \<^verbatim>\<open>due 03/05\<close>: March 5 of the
  current year is past, and the claim has the date resolved to March 5 of the next year,
  as the branch for month names does. The slash branch has no such step: the result is
  \<^verbatim>\<open>2026-03-05\<close>, a date before the current one.
\<close>

theorem slash_date_not_rolled:
  "extract_due nov6 ''due 03/05'' = Inr (Some ''2026-03-05'') \<and>
   date_less \<lparr>year = 2026, month = 3, day = 5\<rparr> nov6"
  by code_simp


end
